theory Spec2Isabelle
  imports Main "HOL-Library.FSet"
begin

section \<open>The virtualized image grid\<close>

text \<open>
  A shallow embedding of the \<^verbatim>\<open>ImageGrid\<close> custom element (the virtualized grid
  component, \<^verbatim>\<open>src/unnamed/part_004\<close>). JavaScript numbers that hold indices, counts
  and pixel sizes are modelled as unbounded integers: every quantity below is an integer
  far below \<open>2^53\<close>, where the double arithmetic of the source is exact, and
  \<^verbatim>\<open>Math.floor(a / b)\<close> and \<^verbatim>\<open>Math.ceil(a / b)\<close> on such integers are the
  floor and the ceiling of the exact quotient.
\<close>

subsection \<open>Data model\<close>

datatype file_type = image | video | audio

datatype category = default | wallpaper

text \<open>The interface \<^verbatim>\<open>MediaInfo\<close>; the field \<^verbatim>\<open>id\<close> is written \<open>id'\<close>.\<close>

record MediaInfo =
  id' :: int
  file_type :: file_type
  file_name :: string
  category :: category
  width :: "int option"
  height :: "int option"
  duration :: "int option"

text \<open>The interface \<^verbatim>\<open>Range\<close>; the field \<^verbatim>\<open>end\<close> is written \<open>end'\<close>.\<close>

record Range =
  start :: int
  end' :: int

text \<open>The class \<^verbatim>\<open>Selected\<close>: a finite set of ids and a nullable primary id.\<close>

record Selected =
  selected :: "int fset"
  primary :: "int option"

text \<open>
  The fields of \<^verbatim>\<open>ImageGrid\<close>, followed by the parts of its shadow tree that the
  methods write. \<^verbatim>\<open>this.range\<close> is written \<open>range'\<close> and \<^verbatim>\<open>this.selected\<close>
  is written \<open>selection\<close>. The elements \<^verbatim>\<open>#container\<close>, \<^verbatim>\<open>#wrapper\<close>,
  \<^verbatim>\<open>#items\<close>, \<^verbatim>\<open>#items-selected\<close> and \<^verbatim>\<open>#sidebar-image\<close> come from the
  component's template and are taken to be present, so that the guards
  \<^verbatim>\<open>if (container && wrapper)\<close>, \<^verbatim>\<open>if (items)\<close> and
  \<^verbatim>\<open>if (selectedText)\<close> succeed.

  \<^item> \<open>surface\<close>: the \<^verbatim>\<open>asset-element\<close> children of \<^verbatim>\<open>#items\<close> in document
    order, each represented by its \<^verbatim>\<open>id\<close> attribute (the only attribute that the
    lookup \<^verbatim>\<open>asset-element[id='...']\<close> reads); the template is taken to hold no
    \<^verbatim>\<open>asset-element\<close> of its own, so that the lookup finds the first such child;
  \<^item> \<open>containerHeight\<close>: \<^verbatim>\<open>container.style.height\<close> in pixels;
  \<^item> \<open>wrapperTop\<close>: \<^verbatim>\<open>wrapper.style.top\<close> in pixels;
  \<^item> \<open>selectedText\<close>: the text content of \<^verbatim>\<open>#items-selected\<close>;
  \<^item> \<open>sidebarImage\<close>: the id in the \<^verbatim>\<open>big-thumbnail\<close> URL of \<^verbatim>\<open>#sidebar-image\<close>.
\<close>

record ImageGrid =
  items :: "MediaInfo list"
  cols :: int
  totalRows :: int
  maxEnd :: int
  selection :: Selected
  dialogFile :: "MediaInfo option"
  window :: int
  range' :: Range
  surface :: "int list"
  containerHeight :: int
  wrapperTop :: int
  selectedText :: string
  sidebarImage :: "int option"

text \<open>
  \<^verbatim>\<open>ImageGrid.create(items)\<close>: the item collection is set, the selection is empty
  and no dialog is open. The numeric fields are assigned by \<^verbatim>\<open>calculateLayout\<close>
  only; until then they are written as \<open>0\<close> here. The template's \<^verbatim>\<open>#items\<close>
  element starts without children.
\<close>

definition create :: "MediaInfo list \<Rightarrow> ImageGrid" where
  "create xs =
    \<lparr>items = xs, cols = 0, totalRows = 0, maxEnd = 0,
     selection = \<lparr>selected = {||}, primary = None\<rparr>, dialogFile = None, window = 0,
     range' = \<lparr>start = 0, end' = 0\<rparr>, surface = [], containerHeight = 0, wrapperTop = 0,
     selectedText = [], sidebarImage = None\<rparr>"

text \<open>An image item with a given id, for concrete collections.\<close>

definition example_item :: "int \<Rightarrow> MediaInfo" where
  "example_item i =
    \<lparr>id' = i, file_type = image, file_name = ''a.png'', category = default,
     width = None, height = None, duration = None\<rparr>"

subsection \<open>Layout\<close>

text \<open>\<^verbatim>\<open>Math.ceil(a / b)\<close> for integers \<open>a\<close> and \<open>b > 0\<close>.\<close>

definition ceil_div :: "int \<Rightarrow> int \<Rightarrow> int" where
  "ceil_div a b = - ((- a) div b)"

text \<open>
  \<^verbatim>\<open>calculateLayout\<close>. The two readings of the browser, \<^verbatim>\<open>wrapper.clientWidth\<close>
  and \<^verbatim>\<open>window.innerHeight\<close>, are parameters; both are non-negative integers.
\<close>

definition calculateLayout :: "nat \<Rightarrow> nat \<Rightarrow> ImageGrid \<Rightarrow> ImageGrid" where
  "calculateLayout clientWidth innerHeight g =
    (let width = int clientWidth;
         cols1 = max 1 ((width + 25) div (150 + 25));
         totalRows1 = ceil_div (int (length (items g))) cols1;
         maxEnd1 = ceil_div (int (length (items g))) cols1 * cols1 - 1;
         totalHeight = totalRows1 * (200 + 25) - 25;
         viewportHeight = int innerHeight;
         rows = ceil_div viewportHeight (200 + 25);
         window1 = (rows + 30) * cols1
     in g\<lparr>cols := cols1, totalRows := totalRows1, maxEnd := maxEnd1,
           containerHeight := totalHeight, window := window1,
           range' := \<lparr>start = 0, end' = min (window1 - 1) maxEnd1\<rparr>\<rparr>)"

text \<open>\<^verbatim>\<open>calculateMargin\<close>.\<close>

definition calculateMargin :: "ImageGrid \<Rightarrow> ImageGrid" where
  "calculateMargin g =
    (let start1 = max (start (range' g)) 0 div cols g
     in g\<lparr>wrapperTop := 25 + start1 * (200 + 25)\<rparr>)"

subsection \<open>Materializing and removing view elements\<close>

text \<open>
  \<^verbatim>\<open>createElement(index)\<close> returns \<^verbatim>\<open>null\<close> for an index outside the collection
  and otherwise a new element whose id attribute is the id of the item at that index.
\<close>

definition createElement :: "ImageGrid \<Rightarrow> int \<Rightarrow> int option" where
  "createElement g index =
    (if index < 0 \<or> index \<ge> int (length (items g)) then None
     else Some (id' (items g ! nat index)))"

text \<open>
  \<^verbatim>\<open>removeElement(index)\<close>: nothing for an index outside the collection; otherwise
  the first element of the shadow tree whose id attribute is the item's id is removed, if
  there is one.
\<close>

definition removeElement :: "int \<Rightarrow> ImageGrid \<Rightarrow> ImageGrid" where
  "removeElement index g =
    (if index < 0 \<or> index \<ge> int (length (items g)) then g
     else g\<lparr>surface := remove1 (id' (items g ! nat index)) (surface g)\<rparr>)"

text \<open>
  One iteration of a loop over indices: a call of \<^verbatim>\<open>removeElement(i)\<close>, or a call of
  \<^verbatim>\<open>createElement(i)\<close> whose result, unless \<^verbatim>\<open>null\<close>, is passed to
  \<^verbatim>\<open>items.appendChild\<close> or to \<^verbatim>\<open>items.prepend\<close>.
\<close>

datatype dom_step = Remove int | Append int | Prepend int

fun perform :: "ImageGrid \<Rightarrow> dom_step \<Rightarrow> ImageGrid" where
  "perform g (Remove i) = removeElement i g"
| "perform g (Append i) =
    (case createElement g i of None \<Rightarrow> g
     | Some element \<Rightarrow> g\<lparr>surface := surface g @ [element]\<rparr>)"
| "perform g (Prepend i) =
    (case createElement g i of None \<Rightarrow> g
     | Some element \<Rightarrow> g\<lparr>surface := element # surface g\<rparr>)"

subsection \<open>Moving the materialized range\<close>

text \<open>
  \<^verbatim>\<open>shiftForwards\<close>. The two loops run over index bounds only, so the steps they
  perform are a function of the range: \<^verbatim>\<open>removeElement(i)\<close> for
  \<^verbatim>\<open>oldStart <= i < this.range.start\<close>, then \<^verbatim>\<open>createElement(i)\<close> and
  \<^verbatim>\<open>appendChild\<close> for \<^verbatim>\<open>oldEnd + 1 <= i <= this.range.end\<close>.
\<close>

definition shiftForwards_distance :: "ImageGrid \<Rightarrow> int" where
  "shiftForwards_distance g = min (cols g * 5) (maxEnd g - end' (range' g))"

definition shiftForwards_range :: "ImageGrid \<Rightarrow> ImageGrid" where
  "shiftForwards_range g =
    (let distance = shiftForwards_distance g
     in calculateMargin (g\<lparr>range' := \<lparr>start = start (range' g) + distance,
                                       end' = end' (range' g) + distance\<rparr>\<rparr>))"

definition shiftForwards_steps :: "ImageGrid \<Rightarrow> dom_step list" where
  "shiftForwards_steps g =
    (let oldStart = start (range' g);
         oldEnd = end' (range' g);
         g1 = shiftForwards_range g
     in map Remove [oldStart .. start (range' g1) - 1] @
        map Append [oldEnd + 1 .. end' (range' g1)])"

definition shiftForwards :: "ImageGrid \<Rightarrow> ImageGrid" where
  "shiftForwards g = foldl perform (shiftForwards_range g) (shiftForwards_steps g)"

text \<open>
  \<^verbatim>\<open>shiftBackwards\<close>: \<^verbatim>\<open>createElement(i)\<close> and \<^verbatim>\<open>prepend\<close> for \<open>i\<close> from
  \<^verbatim>\<open>oldStart - 1\<close> down to \<^verbatim>\<open>this.range.start\<close>, then \<^verbatim>\<open>removeElement(i)\<close> for
  \<open>i\<close> from \<^verbatim>\<open>oldEnd\<close> down to \<^verbatim>\<open>this.range.end + 1\<close>.
\<close>

definition shiftBackwards_distance :: "ImageGrid \<Rightarrow> int" where
  "shiftBackwards_distance g = min (cols g * 5) (start (range' g))"

definition shiftBackwards_range :: "ImageGrid \<Rightarrow> ImageGrid" where
  "shiftBackwards_range g =
    (let distance = shiftBackwards_distance g
     in calculateMargin (g\<lparr>range' := \<lparr>start = start (range' g) - distance,
                                       end' = end' (range' g) - distance\<rparr>\<rparr>))"

definition shiftBackwards_steps :: "ImageGrid \<Rightarrow> dom_step list" where
  "shiftBackwards_steps g =
    (let oldStart = start (range' g);
         oldEnd = end' (range' g);
         g1 = shiftBackwards_range g
     in map Prepend (rev [start (range' g1) .. oldStart - 1]) @
        map Remove (rev [end' (range' g1) + 1 .. oldEnd]))"

definition shiftBackwards :: "ImageGrid \<Rightarrow> ImageGrid" where
  "shiftBackwards g = foldl perform (shiftBackwards_range g) (shiftBackwards_steps g)"

text \<open>
  \<^verbatim>\<open>shiftRange(start, removeExisting)\<close>: the optional teardown of the old range,
  the new bounds, then one \<^verbatim>\<open>createElement\<close> and \<^verbatim>\<open>appendChild\<close> per index of
  the new range.
\<close>

definition shiftRange_teardown :: "bool \<Rightarrow> ImageGrid \<Rightarrow> dom_step list" where
  "shiftRange_teardown removeExisting g =
    (if removeExisting then map Remove [start (range' g) .. end' (range' g)] else [])"

definition shiftRange_range :: "int \<Rightarrow> ImageGrid \<Rightarrow> ImageGrid" where
  "shiftRange_range start0 g =
    (let start1 = max start0 0;
         end1 = min (start1 + window g - 1) (maxEnd g)
     in calculateMargin (g\<lparr>range' := \<lparr>start = start1, end' = end1\<rparr>\<rparr>))"

definition shiftRange_steps :: "ImageGrid \<Rightarrow> dom_step list" where
  "shiftRange_steps g = map Append [start (range' g) .. end' (range' g)]"

definition shiftRange :: "int \<Rightarrow> bool \<Rightarrow> ImageGrid \<Rightarrow> ImageGrid" where
  "shiftRange start0 removeExisting g =
    (let g1 = foldl perform g (shiftRange_teardown removeExisting g);
         g2 = shiftRange_range start0 g1
     in foldl perform g2 (shiftRange_steps g2))"

text \<open>
  \<^verbatim>\<open>connectedCallback\<close>, as far as it writes the state: the layout, one
  \<^verbatim>\<open>createElement\<close> and \<^verbatim>\<open>appendChild\<close> per index of the initial range, and the
  margin.
\<close>

definition connectedCallback_steps :: "ImageGrid \<Rightarrow> dom_step list" where
  "connectedCallback_steps g = map Append [start (range' g) .. end' (range' g)]"

definition connectedCallback :: "nat \<Rightarrow> nat \<Rightarrow> ImageGrid \<Rightarrow> ImageGrid" where
  "connectedCallback clientWidth innerHeight g =
    (let g1 = calculateLayout clientWidth innerHeight g
     in calculateMargin (foldl perform g1 (connectedCallback_steps g1)))"

text \<open>Sequences of calls of the three methods that move the range.\<close>

datatype op = ShiftForwards | ShiftBackwards | ShiftRange int bool

fun apply_op :: "ImageGrid \<Rightarrow> op \<Rightarrow> ImageGrid" where
  "apply_op g ShiftForwards = shiftForwards g"
| "apply_op g ShiftBackwards = shiftBackwards g"
| "apply_op g (ShiftRange start0 removeExisting) = shiftRange start0 removeExisting g"

definition run_ops :: "ImageGrid \<Rightarrow> op list \<Rightarrow> ImageGrid" where
  "run_ops = foldl apply_op"

text \<open>The Range invariant of the specification, with \<open>maxIndex\<close> read as \<open>maxEnd\<close>.\<close>

definition range_inv :: "ImageGrid \<Rightarrow> bool" where
  "range_inv g \<longleftrightarrow>
     0 \<le> start (range' g) \<and> start (range' g) \<le> end' (range' g) \<and> end' (range' g) \<le> maxEnd g"

text \<open>
  The states that a run passes through, one per loop iteration: \<open>visited g steps\<close>
  lists the state before the first step and the state after each step.
\<close>

fun visited :: "ImageGrid \<Rightarrow> dom_step list \<Rightarrow> ImageGrid list" where
  "visited g [] = [g]"
| "visited g (s # ss) = g # visited (perform g s) ss"

fun op_points :: "ImageGrid \<Rightarrow> op \<Rightarrow> ImageGrid list" where
  "op_points g ShiftForwards = visited (shiftForwards_range g) (shiftForwards_steps g)"
| "op_points g ShiftBackwards = visited (shiftBackwards_range g) (shiftBackwards_steps g)"
| "op_points g (ShiftRange start0 removeExisting) =
    (let g1 = foldl perform g (shiftRange_teardown removeExisting g);
         g2 = shiftRange_range start0 g1
     in visited g (shiftRange_teardown removeExisting g) @ visited g2 (shiftRange_steps g2))"


definition connectedCallback_points :: "nat \<Rightarrow> nat \<Rightarrow> ImageGrid \<Rightarrow> ImageGrid list" where
  "connectedCallback_points clientWidth innerHeight g =
    (let g1 = calculateLayout clientWidth innerHeight g
     in visited g1 (connectedCallback_steps g1))"

text \<open>At most one materialized element per id: no id occurs twice on the surface.\<close>

definition one_element_per_id :: "ImageGrid \<Rightarrow> bool" where
  "one_element_per_id g \<longleftrightarrow> distinct (surface g)"

text \<open>
  The ids of the items at the indices \<open>a, ..., b\<close> that lie inside the collection, in
  ascending order of index.
\<close>

definition slice_ids :: "MediaInfo list \<Rightarrow> int \<Rightarrow> int \<Rightarrow> int list" where
  "slice_ids xs a b = map (\<lambda>i. id' (xs ! nat i)) [max a 0 .. min b (int (length xs) - 1)]"

text \<open>
  The state in which the surface mirrors the range: the ids of the collection are
  pairwise distinct, the surface holds exactly the elements of the indices of the range
  that lie inside the collection, in ascending order, and the range either holds at least
  one stride (\<open>cols * 5\<close>) of indices or spans everything from \<open>0\<close> to \<open>maxEnd\<close>.
\<close>

definition materialized_inv :: "ImageGrid \<Rightarrow> bool" where
  "materialized_inv g \<longleftrightarrow>
     distinct (map id' (items g)) \<and>
     surface g = slice_ids (items g) (start (range' g)) (end' (range' g)) \<and>
     1 \<le> cols g \<and> cols g * 5 \<le> window g \<and> - 1 \<le> maxEnd g \<and>
     0 \<le> start (range' g) \<and> end' (range' g) \<le> maxEnd g \<and>
     (cols g * 5 \<le> end' (range' g) - start (range' g) + 1 \<or>
      start (range' g) = 0 \<and> end' (range' g) = maxEnd g)"

subsection \<open>Reconciliation loops of the intersection observer\<close>

text \<open>
  The two \<^verbatim>\<open>while\<close> loops of the observer callback. The test on the sentinel's
  bounding rectangle (\<^verbatim>\<open>bottom <= -1100\<close> for the start sentinel,
  \<^verbatim>\<open>top >= window.innerHeight + 1100\<close> for the end sentinel) is a parameter \<open>far\<close>.
  The loop body runs synchronously, so between two readings only the grid's own writes
  change the layout: the reading is a function of the grid's state. A loop that does not
  return has the value \<open>None\<close>.
\<close>

partial_function (option) startSentinel_loop ::
    "(ImageGrid \<Rightarrow> bool) \<Rightarrow> ImageGrid \<Rightarrow> ImageGrid option" where
  "startSentinel_loop far g =
    (if start (range' g) > 0
     then (let g1 = shiftBackwards g
           in if far g1 then Some g1 else startSentinel_loop far g1)
     else Some g)"

partial_function (option) endSentinel_loop ::
    "(ImageGrid \<Rightarrow> bool) \<Rightarrow> ImageGrid \<Rightarrow> ImageGrid option" where
  "endSentinel_loop far g =
    (if end' (range' g) \<le> int (length (items g)) - 1
     then (let g1 = shiftForwards g
           in if far g1 then Some g1 else endSentinel_loop far g1)
     else Some g)"

subsection \<open>Selection\<close>

text \<open>\<^verbatim>\<open>Array.prototype.findIndex\<close>: the first index that satisfies \<open>P\<close>, or \<open>-1\<close>.\<close>

fun findIndex :: "('a \<Rightarrow> bool) \<Rightarrow> 'a list \<Rightarrow> int" where
  "findIndex P [] = - 1"
| "findIndex P (x # xs) =
    (if P x then 0 else (let r = findIndex P xs in if r < 0 then - 1 else r + 1))"

text \<open>\<^verbatim>\<open>setSelected\<close>, on the set of selected ids.\<close>

definition setSelected :: "int \<Rightarrow> bool \<Rightarrow> ImageGrid \<Rightarrow> ImageGrid" where
  "setSelected i v g =
    (if v then g\<lparr>selection := (selection g)\<lparr>selected := finsert i (selected (selection g))\<rparr>\<rparr>
     else g\<lparr>selection := (selection g)\<lparr>selected := selected (selection g) |-| {|i|}\<rparr>\<rparr>)"

text \<open>
  \<^verbatim>\<open>setPrimary\<close>. It has no \<^verbatim>\<open>await\<close>, so it runs to completion when called.
\<close>

definition setPrimary :: "int option \<Rightarrow> ImageGrid \<Rightarrow> ImageGrid" where
  "setPrimary p g =
    (let oldPrimary = primary (selection g);
         g1 = g\<lparr>selection := (selection g)\<lparr>primary := p\<rparr>\<rparr>
     in if p \<noteq> oldPrimary
        then (case p of None \<Rightarrow> g1
              | Some pid \<Rightarrow>
                 (case find (\<lambda>x. id' x = pid) (items g1) of None \<Rightarrow> g1
                  | Some file \<Rightarrow> g1\<lparr>sidebarImage := Some (id' file)\<rparr>))
        else g1)"

text \<open>
  \<^verbatim>\<open>clearSelected\<close>: the loop calls \<^verbatim>\<open>setSelected(i, false)\<close> for every member of
  the set, which leaves the set empty.
\<close>

definition clearSelected :: "ImageGrid \<Rightarrow> ImageGrid" where
  "clearSelected g =
    setPrimary None (g\<lparr>selection := (selection g)\<lparr>selected := {||}\<rparr>\<rparr>)"

text \<open>Decimal digits of a natural number, as a template literal prints it.\<close>

fun toString :: "nat \<Rightarrow> string" where
  "toString n =
    (if n < 10 then [''0123456789'' ! n]
     else toString (n div 10) @ [''0123456789'' ! (n mod 10)])"

text \<open>\<^verbatim>\<open>updateSelected\<close>.\<close>

definition updateSelected :: "ImageGrid \<Rightarrow> ImageGrid" where
  "updateSelected g =
    (let size1 = fcard (selected (selection g))
     in if size1 = 0 then g\<lparr>selectedText := ''No items selected''\<rparr>
        else g\<lparr>selectedText :=
                 toString size1 @ '' '' @ (if size1 = 1 then ''item'' else ''items'') @
                 '' selected''\<rparr>)"

text \<open>
  \<^verbatim>\<open>changeFileDialog\<close> and \<^verbatim>\<open>showFileDialog\<close>, as far as they write the grid's
  fields.
\<close>

definition changeFileDialog :: "MediaInfo \<Rightarrow> ImageGrid \<Rightarrow> ImageGrid" where
  "changeFileDialog file g = g\<lparr>dialogFile := Some file\<rparr>"

definition showFileDialog :: "MediaInfo \<Rightarrow> ImageGrid \<Rightarrow> ImageGrid" where
  "showFileDialog file g = changeFileDialog file g"

text \<open>
  The \<^verbatim>\<open>mousedown\<close> listener that \<^verbatim>\<open>createElement\<close> attaches to the element of
  \<open>file\<close>. The id that the listener parses from the element's attribute is the id of
  \<open>file\<close>. In the shift branch, \<^verbatim>\<open>this.items[i].id\<close> with \<open>i = -1\<close> reads a field of
  \<^verbatim>\<open>undefined\<close> and throws before anything is written.
\<close>

record MouseEvent =
  button :: int
  shiftKey :: bool
  ctrlKey :: bool

datatype error = TypeError

definition mousedown_select :: "MouseEvent \<Rightarrow> int \<Rightarrow> ImageGrid \<Rightarrow> error + ImageGrid" where
  "mousedown_select event ident g =
    (if shiftKey event \<and> primary (selection g) \<noteq> None
     then (let previousPrimary = the (primary (selection g));
               startPosition0 = findIndex (\<lambda>value. id' value = previousPrimary) (items g);
               endPosition0 = findIndex (\<lambda>value. id' value = ident) (items g);
               startPosition = (if startPosition0 > endPosition0 then endPosition0
                                else startPosition0);
               endPosition = (if startPosition0 > endPosition0 then startPosition0
                              else endPosition0)
           in if startPosition < 0 then Inl TypeError
              else Inr (setPrimary (Some ident)
                         (foldl (\<lambda>g1 i. setSelected (id' (items g1 ! nat i)) True g1) g
                            [startPosition .. endPosition])))
     else if ctrlKey event
     then (if ident |\<in>| selected (selection g)
           then (let g1 = setSelected ident False g
                 in if primary (selection g1) = Some ident then Inr (setPrimary None g1)
                    else Inr g1)
           else Inr (setPrimary (Some ident) (setSelected ident True g)))
     else if button event = 0 \<or> ident |\<notin>| selected (selection g)
     then Inr (setPrimary (Some ident) (setSelected ident True (clearSelected g)))
     else Inr g)"

definition mousedown :: "MouseEvent \<Rightarrow> MediaInfo \<Rightarrow> ImageGrid \<Rightarrow> error + ImageGrid" where
  "mousedown event file g =
    (if button event = 3 \<or> button event = 4 then Inr g
     else (case mousedown_select event (id' file) g of
             Inl e \<Rightarrow> Inl e
           | Inr g1 \<Rightarrow>
               if button event = 1 then Inr (showFileDialog file g1)
               else Inr (updateSelected g1)))"

subsection \<open>Keys while the detail dialog is open\<close>

text \<open>
  The branch of \<^verbatim>\<open>keydownListener\<close> that runs when \<^verbatim>\<open>this.dialogFile\<close> is not
  \<^verbatim>\<open>null\<close>; \<open>key\<close> is \<^verbatim>\<open>event.key\<close>. The other branch, keyboard navigation in
  the grid, reads the geometry of the rendered elements and is not part of this
  development: for a grid whose dialog is closed the function returns \<open>None\<close>.
\<close>

definition keydown_dialog :: "string \<Rightarrow> ImageGrid \<Rightarrow> ImageGrid option" where
  "keydown_dialog key g =
    (case dialogFile g of
       None \<Rightarrow> None
     | Some current \<Rightarrow>
        if key = ''ArrowLeft''
        then (let index = findIndex (\<lambda>x. id' x = id' current) (items g)
              in if index > 0 then Some (changeFileDialog (items g ! nat (index - 1)) g)
                 else Some g)
        else if key = ''ArrowRight''
        then (let index = findIndex (\<lambda>x. id' x = id' current) (items g)
              in if index < int (length (items g)) - 1
                 then Some (changeFileDialog (items g ! nat (index + 1)) g)
                 else Some g)
        else Some g)"

subsection \<open>Concrete states\<close>

text \<open>
  The scenario of the specification for \<^verbatim>\<open>shiftForwards\<close>: four columns (client width
  700), forty items whose ids are their indices, \<open>maxEnd = 39\<close>, and the indices
  \<open>0, ..., 15\<close> materialized.
\<close>

definition scenario :: ImageGrid where
  "scenario = (calculateLayout 700 0 (create (map example_item [0..39])))
     \<lparr>range' := \<lparr>start = 0, end' = 15\<rparr>, surface := [0..15]\<rparr>"

text \<open>
  A grid after a resize. Two hundred items are materialized in four columns (client width
  700, viewport height 900) and \<^verbatim>\<open>shiftForwards\<close> has moved the range to
  \<open>{20, 155}\<close>, which puts the wrapper's offset at 1150. The resize listener then removes
  the elements of the range and calls \<^verbatim>\<open>calculateLayout\<close>, here at client width
  1400: eight columns and the range \<open>{0, 199}\<close>, which ends at \<open>maxEnd\<close>. With
  \<open>start = 0\<close> and \<open>end = maxEnd\<close> the test of \<^verbatim>\<open>adjustRange\<close> fails, so the
  listener calls neither \<^verbatim>\<open>shiftRange\<close> nor \<^verbatim>\<open>calculateMargin\<close>.
\<close>

definition resized :: ImageGrid where
  "resized =
    (let g = shiftForwards (connectedCallback 700 900 (create (map example_item [0..199])))
     in calculateLayout 1400 900
          (foldl perform g (map Remove [start (range' g) .. end' (range' g)])))"

text \<open>
  Five items whose ids differ from their positions, with the item of id \<open>20\<close> (at
  position 3) selected and primary.
\<close>

definition five_items :: ImageGrid where
  "five_items = (create (map example_item [50, 40, 30, 20, 10]))
     \<lparr>selection := \<lparr>selected = {|20|}, primary = Some 20\<rparr>\<rparr>"

section \<open>Properties\<close>

subsection \<open>Fields that the operations leave alone\<close>

lemma removeElement_fields:
  "items (removeElement i g) = items g" "cols (removeElement i g) = cols g"
  "maxEnd (removeElement i g) = maxEnd g" "window (removeElement i g) = window g"
  "range' (removeElement i g) = range' g" "wrapperTop (removeElement i g) = wrapperTop g"
  by (simp_all add: removeElement_def)

lemma perform_fields:
  "items (perform g s) = items g" "cols (perform g s) = cols g"
  "maxEnd (perform g s) = maxEnd g" "window (perform g s) = window g"
  "range' (perform g s) = range' g" "wrapperTop (perform g s) = wrapperTop g"
  by (cases s; simp add: removeElement_fields split: option.split)+

lemma foldl_perform_fields:
  "items (foldl perform g ss) = items g" "cols (foldl perform g ss) = cols g"
  "maxEnd (foldl perform g ss) = maxEnd g" "window (foldl perform g ss) = window g"
  "range' (foldl perform g ss) = range' g" "wrapperTop (foldl perform g ss) = wrapperTop g"
  by (induction ss arbitrary: g; simp add: perform_fields)+

lemma calculateMargin_fields:
  "items (calculateMargin g) = items g" "cols (calculateMargin g) = cols g"
  "maxEnd (calculateMargin g) = maxEnd g" "window (calculateMargin g) = window g"
  "range' (calculateMargin g) = range' g" "surface (calculateMargin g) = surface g"
  by (simp_all add: calculateMargin_def)

lemma shiftForwards_fields:
  "items (shiftForwards g) = items g" "cols (shiftForwards g) = cols g"
  "maxEnd (shiftForwards g) = maxEnd g" "window (shiftForwards g) = window g"
  by (simp_all add: shiftForwards_def shiftForwards_range_def Let_def foldl_perform_fields calculateMargin_fields)

lemma shiftForwards_range':
  "range' (shiftForwards g) =
     \<lparr>start = start (range' g) + shiftForwards_distance g,
      end' = end' (range' g) + shiftForwards_distance g\<rparr>"
  by (simp add: shiftForwards_def shiftForwards_range_def Let_def foldl_perform_fields calculateMargin_fields)

lemma shiftBackwards_fields:
  "items (shiftBackwards g) = items g" "cols (shiftBackwards g) = cols g"
  "maxEnd (shiftBackwards g) = maxEnd g" "window (shiftBackwards g) = window g"
  by (simp_all add: shiftBackwards_def shiftBackwards_range_def Let_def foldl_perform_fields calculateMargin_fields)

lemma shiftBackwards_range':
  "range' (shiftBackwards g) =
     \<lparr>start = start (range' g) - shiftBackwards_distance g,
      end' = end' (range' g) - shiftBackwards_distance g\<rparr>"
  by (simp add: shiftBackwards_def shiftBackwards_range_def Let_def foldl_perform_fields calculateMargin_fields)

lemma shiftRange_fields:
  "items (shiftRange t d g) = items g" "cols (shiftRange t d g) = cols g"
  "maxEnd (shiftRange t d g) = maxEnd g" "window (shiftRange t d g) = window g"
  by (simp_all add: shiftRange_def shiftRange_range_def Let_def foldl_perform_fields calculateMargin_fields)

lemma shiftRange_range':
  "range' (shiftRange t d g) =
     \<lparr>start = max t 0, end' = min (max t 0 + window g - 1) (maxEnd g)\<rparr>"
  by (simp add: shiftRange_def shiftRange_range_def Let_def foldl_perform_fields calculateMargin_fields)

lemma apply_op_fields:
  "items (apply_op g x) = items g" "cols (apply_op g x) = cols g"
  "maxEnd (apply_op g x) = maxEnd g" "window (apply_op g x) = window g"
  by (cases x; simp add: shiftForwards_fields shiftBackwards_fields shiftRange_fields)+

lemma run_ops_fields:
  "items (run_ops g xs) = items g" "cols (run_ops g xs) = cols g"
  "maxEnd (run_ops g xs) = maxEnd g" "window (run_ops g xs) = window g"
  unfolding run_ops_def by (induction xs arbitrary: g; simp add: apply_op_fields)+

subsection \<open>Facts about the layout\<close>

lemma calculateLayout_cols: "1 \<le> cols (calculateLayout w h g)"
  by (simp add: calculateLayout_def Let_def)

lemma ceil_div_nonneg: "0 \<le> a \<Longrightarrow> 0 < b \<Longrightarrow> 0 \<le> ceil_div a b"
proof -
  assume a: "0 \<le> a" and b: "0 < b"
  have "(- a) div b \<le> 0 div b"
    using a b by (intro zdiv_mono1) simp_all
  then show ?thesis by (simp add: ceil_div_def)
qed

lemma ceil_div_mult_ge: "0 < b \<Longrightarrow> a \<le> ceil_div a b * b"
proof -
  assume b: "0 < b"
  have "(- a) div b * b + (- a) mod b = - a" by simp
  moreover have "0 \<le> (- a) mod b" using b by simp
  ultimately have "(- a) div b * b \<le> - a" by linarith
  then show ?thesis by (simp add: ceil_div_def)
qed

lemma calculateLayout_window: "30 \<le> window (calculateLayout w h g)"
proof -
  let ?c = "max 1 ((int w + 25) div (150 + 25))"
  have c: "1 \<le> ?c" by simp
  have r: "0 \<le> ceil_div (int h) (200 + 25)" by (rule ceil_div_nonneg) simp_all
  have "30 * 1 \<le> (ceil_div (int h) (200 + 25) + 30) * ?c"
    using c r by (intro mult_mono) simp_all
  then show ?thesis by (simp add: calculateLayout_def Let_def)
qed

lemma calculateLayout_maxEnd: "int (length (items g)) - 1 \<le> maxEnd (calculateLayout w h g)"
proof -
  let ?c = "max 1 ((int w + 25) div (150 + 25))"
  have "int (length (items g)) \<le> ceil_div (int (length (items g))) ?c * ?c"
    by (rule ceil_div_mult_ge) simp
  then show ?thesis by (simp add: calculateLayout_def Let_def)
qed

lemma calculateLayout_range:
  "range' (calculateLayout w h g) =
     \<lparr>start = 0, end' = min (window (calculateLayout w h g) - 1) (maxEnd (calculateLayout w h g))\<rparr>"
  by (simp add: calculateLayout_def Let_def)

lemma calculateLayout_items: "items (calculateLayout w h g) = items g"
  by (simp add: calculateLayout_def Let_def)

text \<open>Two concrete layouts: one column (client width 100) for one and for forty items.\<close>

lemma layout_one_item:
  "cols (calculateLayout 100 0 (create [example_item 0])) = 1"
  "maxEnd (calculateLayout 100 0 (create [example_item 0])) = 0"
  "window (calculateLayout 100 0 (create [example_item 0])) = 30"
  "range' (calculateLayout 100 0 (create [example_item 0])) = \<lparr>start = 0, end' = 0\<rparr>"
  "items (calculateLayout 100 0 (create [example_item 0])) = [example_item 0]"
  by (simp_all add: calculateLayout_def create_def ceil_div_def)

lemma layout_forty_items:
  "cols (calculateLayout 100 0 (create (map example_item [0..39]))) = 1"
  "maxEnd (calculateLayout 100 0 (create (map example_item [0..39]))) = 39"
  "window (calculateLayout 100 0 (create (map example_item [0..39]))) = 30"
  "range' (calculateLayout 100 0 (create (map example_item [0..39]))) = \<lparr>start = 0, end' = 29\<rparr>"
  by (simp_all add: calculateLayout_def create_def ceil_div_def)


subsection \<open>The range invariant\<close>

lemma apply_op_range_inv:
  assumes "range_inv g" and "1 \<le> cols g" and "1 \<le> window g"
    and "\<And>t d. x = ShiftRange t d \<Longrightarrow> t \<le> maxEnd g"
  shows "range_inv (apply_op g x)"
proof (cases x)
  case ShiftForwards
  then show ?thesis
    using assms(1,2)
    by (simp add: range_inv_def shiftForwards_range' shiftForwards_fields shiftForwards_distance_def
        min_def)
next
  case ShiftBackwards
  then show ?thesis
    using assms(1,2)
    by (simp add: range_inv_def shiftBackwards_range' shiftBackwards_fields shiftBackwards_distance_def
        min_def)
next
  case (ShiftRange t d)
  then have "t \<le> maxEnd g" by (rule assms(4))
  with ShiftRange show ?thesis
    using assms(1,3)
    by (simp add: range_inv_def shiftRange_range' shiftRange_fields)
qed

lemma run_ops_range_inv:
  assumes "range_inv g" and "1 \<le> cols g" and "1 \<le> window g"
    and "\<forall>x \<in> set xs. \<forall>t d. x = ShiftRange t d \<longrightarrow> t \<le> maxEnd g"
  shows "range_inv (run_ops g xs)"
  using assms
proof (induction xs arbitrary: g)
  case Nil
  then show ?case by (simp add: run_ops_def)
next
  case (Cons x xs)
  have step: "range_inv (apply_op g x)"
    using Cons.prems by (intro apply_op_range_inv) auto
  have "range_inv (run_ops (apply_op g x) xs)"
    using step Cons.prems by (intro Cons.IH) (auto simp: apply_op_fields)
  then show ?case by (simp add: run_ops_def)
qed

lemma calculateLayout_range_inv:
  assumes "items g \<noteq> []"
  shows "range_inv (calculateLayout w h g)"
proof -
  have "1 \<le> int (length (items g))" using assms by (cases "items g") simp_all
  then have "0 \<le> maxEnd (calculateLayout w h g)"
    using calculateLayout_maxEnd [of g w h] by linarith
  moreover have "30 \<le> window (calculateLayout w h g)" by (rule calculateLayout_window)
  ultimately show ?thesis
    by (simp add: range_inv_def calculateLayout_range)
qed

text \<open>
  Claim C1, as the code has it. For every non-empty item collection, every client width
  and viewport height, and every sequence of \<^verbatim>\<open>shiftForwards\<close>,
  \<^verbatim>\<open>shiftBackwards\<close> and \<^verbatim>\<open>shiftRange\<close> calls in which no \<^verbatim>\<open>shiftRange\<close>
  target exceeds \<open>maxEnd\<close>, applied to the range that \<^verbatim>\<open>calculateLayout\<close>
  establishes, the range satisfies \<open>0 \<le> start \<le> end \<le> maxEnd\<close> afterwards.
\<close>

theorem range_inv_after_ops:
  assumes "items g \<noteq> []"
    and "\<forall>x \<in> set ops. \<forall>t d. x = ShiftRange t d \<longrightarrow> t \<le> maxEnd (calculateLayout w h g)"
  shows "range_inv (run_ops (calculateLayout w h g) ops)"
proof -
  have "1 \<le> window (calculateLayout w h g)"
    using calculateLayout_window [of w h g] by linarith
  then show ?thesis
    using assms by (intro run_ops_range_inv calculateLayout_range_inv calculateLayout_cols)
qed

text \<open>
  The theorem at forty items in one column and the calls \<^verbatim>\<open>shiftForwards()\<close>,
  \<^verbatim>\<open>shiftRange(20, true)\<close>, \<^verbatim>\<open>shiftBackwards()\<close>.
\<close>

theorem range_inv_after_ops_witness:
  "items (create (map example_item [0..39])) \<noteq> [] \<and>
   20 \<le> maxEnd (calculateLayout 100 0 (create (map example_item [0..39]))) \<and>
   range_inv (run_ops (calculateLayout 100 0 (create (map example_item [0..39])))
      [ShiftForwards, ShiftRange 20 True, ShiftBackwards])"
proof -
  have a: "items (create (map example_item [0..39])) \<noteq> []"
    by (simp add: create_def upto.simps)
  have b: "\<forall>x \<in> set [ShiftForwards, ShiftRange 20 True, ShiftBackwards].
      \<forall>t d. x = ShiftRange t d \<longrightarrow>
        t \<le> maxEnd (calculateLayout 100 0 (create (map example_item [0..39])))"
    by (simp add: layout_forty_items)
  have c: "20 \<le> maxEnd (calculateLayout 100 0 (create (map example_item [0..39])))"
    by (simp add: layout_forty_items)
  show ?thesis
    using a c range_inv_after_ops [OF a b] by blast
qed

text \<open>
  Without the two restrictions the invariant fails. For the empty collection
  \<^verbatim>\<open>calculateLayout\<close> sets \<open>maxEnd = -1\<close> and the range \<open>{0, -1}\<close>; and
  \<^verbatim>\<open>shiftRange\<close> clamps its target from below only, so that a target above \<open>maxEnd\<close>
  (here \<open>1\<close> with \<open>maxEnd = 0\<close>) leaves \<open>start > end\<close>.
\<close>

theorem range_inv_counterexample:
  "\<not> range_inv (run_ops (calculateLayout 100 0 (create [])) []) \<and>
   \<not> range_inv (run_ops (calculateLayout 100 0 (create [example_item 0])) [ShiftRange 1 True])"
proof
  show "\<not> range_inv (run_ops (calculateLayout 100 0 (create [])) [])"
    by (simp add: run_ops_def range_inv_def calculateLayout_def create_def ceil_div_def Let_def)
  show "\<not> range_inv (run_ops (calculateLayout 100 0 (create [example_item 0])) [ShiftRange 1 True])"
    by (simp add: run_ops_def range_inv_def shiftRange_range' shiftRange_fields layout_one_item)
qed

subsection \<open>The bounds that \<^verbatim>\<open>shiftRange\<close> sets\<close>

text \<open>
  Claim C3, as the code has it. \<^verbatim>\<open>shiftRange(targetStart, dropExisting)\<close> sets the
  new start to \<open>max targetStart 0\<close> (the target is clamped from below only) and the new
  end to \<open>min (start + window - 1) maxEnd\<close>, computed from the clamped start. For
  \<open>0 \<le> targetStart \<le> maxEnd\<close> the new start lies in \<open>[0, maxEnd]\<close> and the new end
  is \<open>min (targetStart + window - 1) maxEnd\<close>.
\<close>

theorem shiftRange_bounds:
  "start (range' (shiftRange t d g)) = max t 0 \<and>
   end' (range' (shiftRange t d g)) = min (max t 0 + window g - 1) (maxEnd g) \<and>
   (0 \<le> t \<and> t \<le> maxEnd g \<longrightarrow>
      0 \<le> start (range' (shiftRange t d g)) \<and>
      start (range' (shiftRange t d g)) \<le> maxEnd (shiftRange t d g) \<and>
      end' (range' (shiftRange t d g)) = min (t + window g - 1) (maxEnd g))"
  by (simp add: shiftRange_range' shiftRange_fields)

text \<open>The theorem at forty items in one column and the target \<open>20\<close>.\<close>

theorem shiftRange_bounds_witness:
  "start (range' (shiftRange 20 True (calculateLayout 100 0 (create (map example_item [0..39]))))) = 20 \<and>
   end' (range' (shiftRange 20 True (calculateLayout 100 0 (create (map example_item [0..39]))))) = 39"
  using shiftRange_bounds [of 20 True "calculateLayout 100 0 (create (map example_item [0..39]))"]
  by (simp add: layout_forty_items)

text \<open>
  The claim as stated fails twice: a target above \<open>maxEnd\<close> is not clamped (one item,
  \<open>maxEnd = 0\<close>, target \<open>1\<close>), and for a negative target the end is computed from the
  clamped start, not from the target (forty items, \<open>window = 30\<close>, target \<open>-5\<close>: the end
  is \<open>29\<close>, not \<open>24\<close>).
\<close>

theorem shiftRange_bounds_counterexample:
  "\<not> start (range' (shiftRange 1 True (calculateLayout 100 0 (create [example_item 0]))))
       \<le> maxEnd (calculateLayout 100 0 (create [example_item 0])) \<and>
   end' (range' (shiftRange (- 5) True (calculateLayout 100 0 (create (map example_item [0..39])))))
     \<noteq> min (- 5 + window (calculateLayout 100 0 (create (map example_item [0..39]))) - 1)
           (maxEnd (calculateLayout 100 0 (create (map example_item [0..39]))))"
  by (simp add: shiftRange_range' layout_one_item layout_forty_items)


subsection \<open>\<^verbatim>\<open>shiftForwards\<close>\<close>

lemma shiftForwards_steps_eq:
  "shiftForwards_steps g =
     map Remove [start (range' g) .. start (range' g) + shiftForwards_distance g - 1] @
     map Append [end' (range' g) + 1 .. end' (range' g) + shiftForwards_distance g]"
  by (simp add: shiftForwards_steps_def shiftForwards_range_def Let_def calculateMargin_fields)

lemma Range_eta: "\<lparr>start = start r, end' = end' r\<rparr> = (r::Range)"
  by (cases r) simp

lemma shiftForwards_at_end:
  assumes "0 \<le> cols g" and "end' (range' g) = maxEnd g"
  shows "shiftForwards g = calculateMargin g"
proof -
  have d: "shiftForwards_distance g = 0"
    using assms by (simp add: shiftForwards_distance_def)
  have "shiftForwards_steps g = []"
    by (simp add: shiftForwards_steps_eq d)
  moreover have "shiftForwards_range g = calculateMargin g"
    by (simp add: shiftForwards_range_def d Range_eta)
  ultimately show ?thesis by (simp add: shiftForwards_def)
qed

lemma scenario_fields:
  "cols scenario = 4" "maxEnd scenario = 39" "range' scenario = \<lparr>start = 0, end' = 15\<rparr>"
  by (simp_all add: scenario_def calculateLayout_def create_def ceil_div_def)

lemma scenario_surface:
  "surface (shiftForwards scenario) = [16..35]"
  by code_simp

subsection \<open>\<^verbatim>\<open>shiftForwards\<close> followed by \<^verbatim>\<open>shiftBackwards\<close>\<close>

text \<open>
  Claim C7. When the \<^verbatim>\<open>shiftForwards\<close> call is not clamped
  (\<open>maxEnd - end \<ge> cols * 5\<close>) and the \<^verbatim>\<open>shiftBackwards\<close> call that follows it is not
  clamped (the start it finds is at least \<open>cols * 5\<close>), the two calls restore the range.
\<close>

theorem shiftForwards_then_shiftBackwards:
  assumes "cols g * 5 \<le> maxEnd g - end' (range' g)"
    and "cols g * 5 \<le> start (range' (shiftForwards g))"
  shows "range' (shiftBackwards (shiftForwards g)) = range' g"
  using assms
  by (simp add: shiftBackwards_range' shiftForwards_range' shiftBackwards_distance_def
      shiftForwards_distance_def shiftForwards_fields)

text \<open>The theorem at forty items in one column, where the range is \<open>{0, 29}\<close>.\<close>

theorem shiftForwards_then_shiftBackwards_witness:
  "cols (calculateLayout 100 0 (create (map example_item [0..39]))) * 5
     \<le> maxEnd (calculateLayout 100 0 (create (map example_item [0..39])))
        - end' (range' (calculateLayout 100 0 (create (map example_item [0..39])))) \<and>
   cols (calculateLayout 100 0 (create (map example_item [0..39]))) * 5
     \<le> start (range' (shiftForwards (calculateLayout 100 0 (create (map example_item [0..39]))))) \<and>
   range' (shiftBackwards (shiftForwards (calculateLayout 100 0 (create (map example_item [0..39])))))
     = \<lparr>start = 0, end' = 29\<rparr>"
proof -
  let ?g = "calculateLayout 100 0 (create (map example_item [0..39]))"
  have a: "cols ?g * 5 \<le> maxEnd ?g - end' (range' ?g)"
    by (simp add: layout_forty_items)
  have b: "cols ?g * 5 \<le> start (range' (shiftForwards ?g))"
    by (simp add: shiftForwards_range' shiftForwards_distance_def layout_forty_items)
  show ?thesis
    using a b shiftForwards_then_shiftBackwards [OF a b] by (simp add: layout_forty_items)
qed


subsection \<open>Selection by pointer\<close>

text \<open>
  \<open>findIndex\<close> returns the first position that satisfies the predicate, and a negative
  number exactly when there is none.
\<close>

lemma findIndex_ge: "- 1 \<le> findIndex P xs"
  by (induction xs) (auto simp: Let_def)

lemma findIndex_first:
  "findIndex P xs = int i \<Longrightarrow> i < length xs \<and> P (xs ! i) \<and> (\<forall>j < i. \<not> P (xs ! j))"
proof (induction xs arbitrary: i)
  case Nil
  then show ?case by simp
next
  case (Cons x xs)
  show ?case
  proof (cases "P x")
    case True
    with Cons.prems show ?thesis by simp
  next
    case False
    with Cons.prems have r: "findIndex P xs = int i - 1" and pos: "0 < i"
      by (auto simp: Let_def split: if_splits)
    then have "findIndex P xs = int (i - 1)" by (simp add: of_nat_diff)
    from Cons.IH [OF this] False pos show ?thesis
      by (auto simp: nth_Cons split: nat.splits)
  qed
qed

lemma findIndex_absent: "findIndex P xs < 0 \<longleftrightarrow> (\<forall>x \<in> set xs. \<not> P x)"
  using findIndex_ge [of P] by (induction xs) (auto simp: Let_def)

lemma setSelected_fields:
  "items (setSelected i v g) = items g"
  "primary (selection (setSelected i v g)) = primary (selection g)"
  "selected (selection (setSelected i True g)) = finsert i (selected (selection g))"
  "selected (selection (setSelected i False g)) = selected (selection g) |-| {|i|}"
  by (simp_all add: setSelected_def)

lemma setPrimary_fields:
  "items (setPrimary p g) = items g"
  "primary (selection (setPrimary p g)) = p"
  "selected (selection (setPrimary p g)) = selected (selection g)"
  by (simp_all add: setPrimary_def Let_def split: option.split)

lemma clearSelected_fields:
  "items (clearSelected g) = items g"
  "primary (selection (clearSelected g)) = None"
  "selected (selection (clearSelected g)) = {||}"
  by (simp_all add: clearSelected_def setPrimary_fields)

lemma updateSelected_selection: "selection (updateSelected g) = selection g"
  by (simp add: updateSelected_def Let_def)

lemma showFileDialog_selection: "selection (showFileDialog file g) = selection g"
  by (simp add: showFileDialog_def changeFileDialog_def)

lemma Selected_eqI:
  "selected s = a \<Longrightarrow> primary s = p \<Longrightarrow> (s::Selected) = \<lparr>selected = a, primary = p\<rparr>"
  by (cases s) simp

lemma mousedown_selection:
  assumes "button event \<noteq> 3" and "button event \<noteq> 4"
  shows "map_sum id selection (mousedown event file g) =
         map_sum id selection (mousedown_select event (id' file) g)"
  using assms
  by (simp add: mousedown_def updateSelected_selection showFileDialog_selection split: sum.split)

lemma five_items_fields:
  "items five_items = map example_item [50, 40, 30, 20, 10]"
  "selection five_items = \<lparr>selected = {|20|}, primary = Some 20\<rparr>"
  by (simp_all add: five_items_def create_def)

text \<open>
  Claim C4, as the code has it. A ctrl-click on the element of an item (no range-select
  in effect, and not the back or forward button) flips the membership of the item's id in
  the selected set. Toggling an unselected id into the set makes it the primary id;
  toggling out the id that is primary sets primary to null, and toggling out any other id
  leaves primary as it is.
\<close>

theorem ctrl_click_toggles:
  assumes "ctrlKey event"
    and "\<not> (shiftKey event \<and> primary (selection g) \<noteq> None)"
    and "button event \<noteq> 3" and "button event \<noteq> 4"
  shows "map_sum id selection (mousedown event file g) =
     Inr (if id' file |\<in>| selected (selection g)
          then \<lparr>selected = selected (selection g) |-| {|id' file|},
                primary = (if primary (selection g) = Some (id' file) then None
                           else primary (selection g))\<rparr>
          else \<lparr>selected = finsert (id' file) (selected (selection g)),
                primary = Some (id' file)\<rparr>)"
proof -
  show ?thesis
    unfolding mousedown_selection [OF assms(3,4)]
    using assms(1,2)
    by (auto simp: mousedown_select_def Let_def setSelected_fields setPrimary_fields
        intro!: Selected_eqI)
qed

text \<open>
  The theorem at the selection \<open>{7}\<close> with primary \<open>7\<close>: a ctrl-click on \<open>7\<close> empties
  the selection and unsets primary.
\<close>

theorem ctrl_click_toggles_witness:
  "map_sum id selection
     (mousedown \<lparr>button = 0, shiftKey = False, ctrlKey = True\<rparr> (example_item 7)
        ((create [example_item 7])\<lparr>selection := \<lparr>selected = {|7|}, primary = Some 7\<rparr>\<rparr>)) =
   Inr \<lparr>selected = {||}, primary = None\<rparr>"
  using ctrl_click_toggles [of "\<lparr>button = 0, shiftKey = False, ctrlKey = True\<rparr>"
      "(create [example_item 7])\<lparr>selection := \<lparr>selected = {|7|}, primary = Some 7\<rparr>\<rparr>"
      "example_item 7"]
  by (simp add: example_item_def)

text \<open>
  The claim as stated says that toggling \<open>7\<close> into the empty selection leaves primary
  unset. The ctrl branch calls \<^verbatim>\<open>this.setPrimary(id)\<close> after
  \<^verbatim>\<open>this.setSelected(id, true)\<close>: primary is \<open>7\<close>.
\<close>

theorem ctrl_click_toggles_counterexample:
  "map_sum id selection
     (mousedown \<lparr>button = 0, shiftKey = False, ctrlKey = True\<rparr> (example_item 7)
        (create [example_item 7])) =
   Inr \<lparr>selected = {|7|}, primary = Some 7\<rparr>"
  by (simp add: mousedown_def mousedown_select_def create_def example_item_def setSelected_def
      setPrimary_def updateSelected_def Let_def)

lemma foldl_setSelected:
  "selection (foldl (\<lambda>g1 i. setSelected (id' (items g1 ! nat i)) True g1) g js) =
     (selection g)\<lparr>selected := selected (selection g) |\<union>|
        fset_of_list (map (\<lambda>i. id' (items g ! nat i)) js)\<rparr> \<and>
   items (foldl (\<lambda>g1 i. setSelected (id' (items g1 ! nat i)) True g1) g js) = items g"
proof (induction js arbitrary: g)
  case Nil
  then show ?case by simp
next
  case (Cons j js)
  show ?case
    by (simp add: Cons.IH setSelected_fields)
qed

lemma interval_ids:
  assumes "a \<le> b"
  shows "(\<lambda>i. f (xs ! nat i)) ` {int a .. int b} = {f (xs ! i) | i. a \<le> i \<and> i \<le> b}"
proof (intro set_eqI iffI)
  fix y assume "y \<in> (\<lambda>i. f (xs ! nat i)) ` {int a .. int b}"
  then obtain i where "int a \<le> i" "i \<le> int b" "y = f (xs ! nat i)" by auto
  then have "a \<le> nat i \<and> nat i \<le> b \<and> y = f (xs ! nat i)" by auto
  then show "y \<in> {f (xs ! i) | i. a \<le> i \<and> i \<le> b}" by blast
next
  fix y assume "y \<in> {f (xs ! i) | i. a \<le> i \<and> i \<le> b}"
  then obtain i where "a \<le> i" "i \<le> b" "y = f (xs ! i)" by blast
  then have "int i \<in> {int a .. int b}" "y = f (xs ! nat (int i))" by auto
  then show "y \<in> (\<lambda>i. f (xs ! nat i)) ` {int a .. int b}" by blast
qed

lemma interval_1_3: "{i::nat. 1 \<le> i \<and> i \<le> 3} = {1, 2, 3}"
  by auto

text \<open>
  Claim C8, as the code has it. A shift-click while primary is the id \<open>a\<close>, on the
  element of an item with id \<open>b\<close>, both present in the collection at the positions
  \<open>pa\<close> and \<open>pb\<close> that \<^verbatim>\<open>findIndex\<close> gives them in the full collection: the click
  adds to the selected set exactly the ids of the items at the positions from
  \<open>min pa pb\<close> to \<open>max pa pb\<close>, inclusive, whichever of the two is larger. Ids that
  were selected before the click stay selected, and \<open>b\<close> becomes primary. Neither the
  range nor the surface occurs in the statement: it holds whether or not these items are
  materialized.
\<close>

theorem shift_click_selects_interval:
  assumes "shiftKey event" and "primary (selection g) = Some a"
    and "button event \<noteq> 3" and "button event \<noteq> 4"
    and "findIndex (\<lambda>value. id' value = a) (items g) = int pa"
    and "findIndex (\<lambda>value. id' value = id' file) (items g) = int pb"
  shows "\<exists>s. map_sum id selection (mousedown event file g) = Inr s \<and>
     primary s = Some (id' file) \<and>
     fset (selected s) =
       fset (selected (selection g)) \<union>
       {id' (items g ! i) | i. min pa pb \<le> i \<and> i \<le> max pa pb}"
proof -
  let ?lo = "int (min pa pb)" and ?hi = "int (max pa pb)"
  let ?g1 = "foldl (\<lambda>g1 i. setSelected (id' (items g1 ! nat i)) True g1) g [?lo .. ?hi]"
  have sel: "mousedown_select event (id' file) g = Inr (setPrimary (Some (id' file)) ?g1)"
    using assms(1,2,5,6)
    by (auto simp: mousedown_select_def Let_def min_def max_def)
  have "fset (fset_of_list (map (\<lambda>i. id' (items g ! nat i)) [?lo .. ?hi])) =
      {id' (items g ! i) | i. min pa pb \<le> i \<and> i \<le> max pa pb}"
    using interval_ids [of "min pa pb" "max pa pb" id' "items g"]
    by (simp add: fset_of_list.rep_eq)
  then have "fset (selected (selection (setPrimary (Some (id' file)) ?g1))) =
      fset (selected (selection g)) \<union> {id' (items g ! i) | i. min pa pb \<le> i \<and> i \<le> max pa pb}"
    by (simp add: setPrimary_fields foldl_setSelected)
  then show ?thesis
    unfolding mousedown_selection [OF assms(3,4)] sel
    by (simp add: setPrimary_fields)
qed

text \<open>
  The theorem at five items with the ids \<open>50, 40, 30, 20, 10\<close>, the ids \<open>10\<close> and
  \<open>20\<close> selected, primary \<open>20\<close> (position 3) and a shift-click on \<open>40\<close> (position
  1): the ids \<open>40, 30, 20\<close> of the interval are selected and \<open>10\<close>, outside the
  interval, stays selected.
\<close>

theorem shift_click_selects_interval_witness:
  "\<exists>s. map_sum id selection
         (mousedown \<lparr>button = 0, shiftKey = True, ctrlKey = False\<rparr> (example_item 40)
            (five_items\<lparr>selection := \<lparr>selected = {|10, 20|}, primary = Some 20\<rparr>\<rparr>)) = Inr s \<and>
       primary s = Some 40 \<and> fset (selected s) = {10, 40, 30, 20}"
proof -
  let ?e = "\<lparr>button = 0, shiftKey = True, ctrlKey = False\<rparr>"
  let ?g = "five_items\<lparr>selection := \<lparr>selected = {|10, 20|}, primary = Some 20\<rparr>\<rparr>"
  have h1: "shiftKey ?e" by simp
  have h2: "primary (selection ?g) = Some 20" by simp
  have h3: "button ?e \<noteq> 3" by simp
  have h4: "button ?e \<noteq> 4" by simp
  have h5: "findIndex (\<lambda>value. id' value = 20) (items ?g) = int 3"
    by (simp add: five_items_fields example_item_def)
  have h6: "findIndex (\<lambda>value. id' value = id' (example_item 40)) (items ?g) = int 1"
    by (simp add: five_items_fields example_item_def)
  have "{id' (items ?g ! i) | i. (1::nat) \<le> i \<and> i \<le> 3} =
      (\<lambda>i. id' (items ?g ! i)) ` {i::nat. 1 \<le> i \<and> i \<le> 3}"
    by blast
  then have ids: "{id' (items ?g ! i) | i. (1::nat) \<le> i \<and> i \<le> 3} = {40, 30, 20}"
    unfolding interval_1_3 by (simp add: five_items_fields example_item_def)
  have m: "min (3::nat) 1 = 1" "max (3::nat) 1 = 3" by simp_all
  have sel: "fset (selected (selection ?g)) = {10, 20}" by simp
  have idf: "id' (example_item 40) = 40" by (simp add: example_item_def)
  have "{10, 20} \<union> {40, 30, 20} = {10, 40, 30, 20::int}" by blast
  then show ?thesis
    using shift_click_selects_interval [OF h1 h2 h3 h4 h5 h6]
    unfolding m ids sel idf by metis
qed

text \<open>
  The selection after a shift-click is not always the closed interval. With the ids
  \<open>50\<close> and \<open>20\<close> selected (a click on \<open>50\<close>, then a ctrl-click on \<open>20\<close>, which
  makes \<open>20\<close> primary), a shift-click on \<open>40\<close> selects the interval \<open>40, 30, 20\<close>
  and keeps \<open>50\<close>: the shift branch does not call \<^verbatim>\<open>clearSelected\<close>.
\<close>

theorem shift_click_selects_interval_counterexample:
  "map_sum id selection
     (mousedown \<lparr>button = 0, shiftKey = True, ctrlKey = False\<rparr> (example_item 40)
        (five_items\<lparr>selection := \<lparr>selected = {|50, 20|}, primary = Some 20\<rparr>\<rparr>)) =
   Inr \<lparr>selected = {|50, 40, 30, 20|}, primary = Some 40\<rparr>"
proof -
  let ?e = "\<lparr>button = 0, shiftKey = True, ctrlKey = False\<rparr>"
  let ?g = "five_items\<lparr>selection := \<lparr>selected = {|50, 20|}, primary = Some 20\<rparr>\<rparr>"
  let ?g1 = "foldl (\<lambda>g1 i. setSelected (id' (items g1 ! nat i)) True g1) ?g [1 .. 3]"
  have idf: "id' (example_item 40) = 40" by (simp add: example_item_def)
  have pa: "findIndex (\<lambda>value. id' value = 20) (items five_items) = 3"
    by (simp add: five_items_fields example_item_def)
  have pb: "findIndex (\<lambda>value. id' value = 40) (items five_items) = 1"
    by (simp add: five_items_fields example_item_def)
  have sel: "mousedown_select ?e 40 ?g = Inr (setPrimary (Some 40) ?g1)"
    by (simp add: mousedown_select_def Let_def pa pb del: upto_rec_numeral)
  have ids: "map (\<lambda>i. id' (items five_items ! nat i)) [1 .. 3] = [40, 30, 20]"
    by code_simp
  have "selected (selection ?g1) =
      {|50, 20|} |\<union>| fset_of_list (map (\<lambda>i. id' (items five_items ! nat i)) [1 .. 3])"
    by (simp add: foldl_setSelected del: upto_rec_numeral)
  also have "\<dots> = {|50, 20|} |\<union>| {|40, 30, 20|}"
    unfolding ids by simp
  also have "\<dots> = {|50, 40, 30, 20|}" by auto
  finally have "selection (setPrimary (Some 40) ?g1) =
      \<lparr>selected = {|50, 40, 30, 20|}, primary = Some 40\<rparr>"
    by (intro Selected_eqI) (simp_all add: setPrimary_fields)
  then show ?thesis
    using mousedown_selection [of ?e "example_item 40" ?g] sel by (simp add: idf)
qed


subsection \<open>The selection-count summary\<close>

text \<open>
  Claim C9, as the code has it. After \<^verbatim>\<open>updateSelected\<close> the summary text is
  \<^verbatim>\<open>No items selected\<close> (with a capital N) when the selected set is empty,
  \<^verbatim>\<open>1 item selected\<close> when it has one member, and the decimal numeral of \<open>n\<close>
  followed by \<^verbatim>\<open> items selected\<close> when it has \<open>n > 1\<close> members.
\<close>

theorem selection_summary:
  "selectedText (updateSelected g) =
     (if fcard (selected (selection g)) = 0 then ''No items selected''
      else if fcard (selected (selection g)) = 1 then ''1 item selected''
      else toString (fcard (selected (selection g))) @ '' items selected'')"
  by (simp add: updateSelected_def Let_def)

text \<open>The theorem at a selected set of three ids.\<close>

theorem selection_summary_witness:
  "selectedText (updateSelected ((create [])\<lparr>selection := \<lparr>selected = {|4, 5, 6|}, primary = None\<rparr>\<rparr>))
     = ''3 items selected''"
proof -
  have "fcard {|4, 5, 6 :: int|} = 3" by (simp add: fcard_finsert_if)
  then show ?thesis
    using selection_summary [of "(create [])\<lparr>selection := \<lparr>selected = {|4, 5, 6|}, primary = None\<rparr>\<rparr>"]
    by simp
qed

text \<open>The text for the empty selection is not the lower-case text of the claim.\<close>

theorem selection_summary_counterexample:
  "selectedText (updateSelected (create [])) \<noteq> ''no items selected''"
  by (simp add: updateSelected_def create_def)


subsection \<open>Arrow keys in the detail dialog\<close>

lemma changeFileDialog_eq: "changeFileDialog file g = g\<lparr>dialogFile := Some file\<rparr>"
  by (simp add: changeFileDialog_def)

text \<open>
  Claim C10. While the dialog shows an item that is present in the collection, at the
  position \<open>i\<close> that \<^verbatim>\<open>findIndex\<close> gives its id in the full collection,
  \<^verbatim>\<open>ArrowRight\<close> changes the dialog to the item at position \<open>i + 1\<close> and
  \<^verbatim>\<open>ArrowLeft\<close> to the item at position \<open>i - 1\<close>; at the last, respectively the
  first, position the key changes nothing. The range and the surface play no part.
\<close>

theorem dialog_arrow_keys:
  assumes "dialogFile g = Some current"
    and "findIndex (\<lambda>x. id' x = id' current) (items g) = int i"
  shows "keydown_dialog ''ArrowRight'' g =
           Some (if i + 1 < length (items g) then g\<lparr>dialogFile := Some (items g ! (i + 1))\<rparr>
                 else g) \<and>
         keydown_dialog ''ArrowLeft'' g =
           Some (if 0 < i then g\<lparr>dialogFile := Some (items g ! (i - 1))\<rparr> else g)"
proof -
  have r: "nat (int i + 1) = i + 1" by simp
  have l: "nat (int i - 1) = i - 1" by simp
  show ?thesis
    using assms
    by (auto simp: keydown_dialog_def Let_def changeFileDialog_eq r l)
qed

text \<open>
  The theorem at five items with the dialog on the item of id \<open>40\<close> (position 1), none of
  them materialized.
\<close>

theorem dialog_arrow_keys_witness:
  "keydown_dialog ''ArrowRight'' (five_items\<lparr>dialogFile := Some (example_item 40)\<rparr>) =
     Some (five_items\<lparr>dialogFile := Some (example_item 30)\<rparr>) \<and>
   keydown_dialog ''ArrowLeft'' (five_items\<lparr>dialogFile := Some (example_item 40)\<rparr>) =
     Some (five_items\<lparr>dialogFile := Some (example_item 50)\<rparr>)"
  using dialog_arrow_keys [of "five_items\<lparr>dialogFile := Some (example_item 40)\<rparr>"
      "example_item 40" 1]
  by (simp add: five_items_fields example_item_def)


subsection \<open>The reconciliation loops\<close>

text \<open>
  The loop of the start sentinel returns: every iteration moves the start of the range
  down by at least one, and the loop stops at \<open>start = 0\<close>.
\<close>

lemma startSentinel_loop_terminates:
  assumes "1 \<le> cols g"
  shows "\<exists>g'. startSentinel_loop far g = Some g'"
  using assms
proof (induction "nat (start (range' g))" arbitrary: g rule: less_induct)
  case less
  show ?case
  proof (cases "0 < start (range' g)")
    case False
    then show ?thesis by (subst startSentinel_loop.simps) simp
  next
    case True
    let ?g1 = "shiftBackwards g"
    show ?thesis
    proof (cases "far ?g1")
      case True
      with \<open>0 < start (range' g)\<close> show ?thesis
        by (subst startSentinel_loop.simps) (simp add: Let_def)
    next
      case False
      have "0 < shiftBackwards_distance g"
        using \<open>0 < start (range' g)\<close> less.prems by (simp add: shiftBackwards_distance_def)
      moreover have "shiftBackwards_distance g \<le> start (range' g)"
        by (simp add: shiftBackwards_distance_def)
      ultimately have "nat (start (range' ?g1)) < nat (start (range' g))"
        by (simp add: shiftBackwards_range')
      moreover have "1 \<le> cols ?g1" using less.prems by (simp add: shiftBackwards_fields)
      ultimately obtain g' where "startSentinel_loop far ?g1 = Some g'"
        using less.hyps by blast
      with False \<open>0 < start (range' g)\<close> show ?thesis
        by (subst startSentinel_loop.simps) (simp add: Let_def)
    qed
  qed
qed

text \<open>
  The loop of the end sentinel returns when the last row is padded (\<open>maxEnd\<close> lies
  beyond the last index of the collection): every iteration then moves the end of the
  range up by at least one until it passes the last index.
\<close>

lemma endSentinel_loop_terminates:
  assumes "1 \<le> cols g" and "int (length (items g)) - 1 < maxEnd g"
  shows "\<exists>g'. endSentinel_loop far g = Some g'"
  using assms
proof (induction "nat (maxEnd g - end' (range' g))" arbitrary: g rule: less_induct)
  case less
  show ?case
  proof (cases "end' (range' g) \<le> int (length (items g)) - 1")
    case False
    then show ?thesis by (subst endSentinel_loop.simps) simp
  next
    case True
    let ?g1 = "shiftForwards g"
    show ?thesis
    proof (cases "far ?g1")
      case True
      with \<open>end' (range' g) \<le> int (length (items g)) - 1\<close> show ?thesis
        by (subst endSentinel_loop.simps) (simp add: Let_def)
    next
      case False
      have "0 < shiftForwards_distance g"
        using \<open>end' (range' g) \<le> int (length (items g)) - 1\<close> less.prems
        by (simp add: shiftForwards_distance_def)
      moreover have "shiftForwards_distance g \<le> maxEnd g - end' (range' g)"
        by (simp add: shiftForwards_distance_def)
      ultimately have "nat (maxEnd ?g1 - end' (range' ?g1)) < nat (maxEnd g - end' (range' g))"
        by (simp add: shiftForwards_range' shiftForwards_fields)
      moreover have "1 \<le> cols ?g1" "int (length (items ?g1)) - 1 < maxEnd ?g1"
        using less.prems by (simp_all add: shiftForwards_fields)
      ultimately obtain g' where "endSentinel_loop far ?g1 = Some g'"
        using less.hyps by blast
      with False \<open>end' (range' g) \<le> int (length (items g)) - 1\<close> show ?thesis
        by (subst endSentinel_loop.simps) (simp add: Let_def)
    qed
  qed
qed

text \<open>
  The loop of the end sentinel tests \<^verbatim>\<open>this.range.end <= this.items.length - 1\<close>.
  When the range ends at \<open>maxEnd\<close> and \<open>maxEnd\<close> is the last index of the collection
  (the item count is a multiple of the column count), the test stays true,
  \<^verbatim>\<open>shiftForwards\<close> moves nothing, and the reading of the sentinel cannot change: the
  loop does not return.
\<close>

lemma calculateMargin_idem: "calculateMargin (calculateMargin g) = calculateMargin g"
  by (simp add: calculateMargin_def)

lemma endSentinel_loop_stuck:
  assumes fp: "shiftForwards g = g"
    and guard: "end' (range' g) \<le> int (length (items g)) - 1"
    and near: "\<not> far g"
  shows "endSentinel_loop far g = None"
proof -
  have "\<not> (far' = far \<and> g' = g)" if run: "endSentinel_loop far' g' = Some y" for far' g' y
  proof (rule endSentinel_loop.raw_induct
      [where P = "\<lambda>far' g' y. \<not> (far' = far \<and> g' = g)", OF _ run])
    fix loop far' g' y'
    assume IH: "\<And>f b y. loop f b = Some y \<Longrightarrow> \<not> (f = far \<and> b = g)"
      and body: "(if end' (range' g') \<le> int (length (items g')) - 1
                  then let g1 = shiftForwards g'
                       in if far' g1 then Some g1 else loop far' g1
                  else Some g') = Some y'"
    show "\<not> (far' = far \<and> g' = g)"
    proof
      assume "far' = far \<and> g' = g"
      with body fp guard near have "loop far g = Some y'"
        by (simp add: Let_def)
      with IH show False by blast
    qed
  qed
  then have "endSentinel_loop far g \<noteq> Some y" for y by blast
  then show ?thesis by (cases "endSentinel_loop far g") auto
qed

lemma endSentinel_loop_at_end:
  assumes "0 \<le> cols g" and "end' (range' g) = maxEnd g"
    and "end' (range' g) \<le> int (length (items g)) - 1"
    and "\<not> far (calculateMargin g)"
  shows "endSentinel_loop far g = None"
proof -
  let ?g1 = "calculateMargin g"
  have s: "shiftForwards g = ?g1"
    using assms(1,2) by (rule shiftForwards_at_end)
  have "shiftForwards ?g1 = calculateMargin ?g1"
    using assms(1,2) by (intro shiftForwards_at_end) (simp_all add: calculateMargin_fields)
  then have fp: "shiftForwards ?g1 = ?g1" by (simp add: calculateMargin_idem)
  have "endSentinel_loop far ?g1 = None"
    using fp assms(3,4) by (intro endSentinel_loop_stuck) (simp_all add: calculateMargin_fields)
  then show ?thesis
    using assms(3,4) s by (subst endSentinel_loop.simps) (simp add: Let_def)
qed


lemma connectedCallback_four_items:
  "cols (connectedCallback 700 900 (create (map example_item [0..3]))) = 4"
  "maxEnd (connectedCallback 700 900 (create (map example_item [0..3]))) = 3"
  "range' (connectedCallback 700 900 (create (map example_item [0..3]))) = \<lparr>start = 0, end' = 3\<rparr>"
  "length (items (connectedCallback 700 900 (create (map example_item [0..3])))) = 4"
  by (simp_all add: connectedCallback_def Let_def calculateMargin_fields foldl_perform_fields
      calculateLayout_def create_def ceil_div_def)

text \<open>
  Claim C6 says that every reconciliation loop stops once the range reaches a boundary.
  For four items in four columns (client width 700, viewport height 900), materialized by
  \<^verbatim>\<open>connectedCallback\<close>, the range is \<open>{0, 3}\<close> with \<open>maxEnd = 3\<close>, the last index
  of the collection; while the end sentinel stays within the threshold, the loop of the
  end sentinel never returns.
\<close>

theorem endSentinel_loop_diverges:
  "endSentinel_loop (\<lambda>g. False) (connectedCallback 700 900 (create (map example_item [0..3]))) = None"
  by (rule endSentinel_loop_at_end) (simp_all add: connectedCallback_four_items)

subsection \<open>At most one element per id\<close>

text \<open>Slices of the collection's ids.\<close>

lemma slice_ids_empty:
  "b < a \<or> b < 0 \<or> int (length xs) \<le> a \<Longrightarrow> slice_ids xs a b = []"
  by (auto simp: slice_ids_def)

lemma slice_ids_Cons:
  "0 \<le> a \<Longrightarrow> a \<le> b \<Longrightarrow> a < int (length xs) \<Longrightarrow>
   slice_ids xs a b = id' (xs ! nat a) # slice_ids xs (a + 1) b"
  by (simp add: slice_ids_def upto_rec1 [of a] max_def)

lemma slice_ids_snoc:
  "0 \<le> b \<Longrightarrow> a \<le> b \<Longrightarrow> b < int (length xs) \<Longrightarrow>
   slice_ids xs a b = slice_ids xs a (b - 1) @ [id' (xs ! nat b)]"
  by (simp add: slice_ids_def upto_rec2 [of "max a 0" b] min_def)

lemma slice_ids_below: "a < 0 \<Longrightarrow> slice_ids xs a b = slice_ids xs (a + 1) b"
  by (simp add: slice_ids_def max_def)

lemma slice_ids_above:
  assumes "int (length xs) \<le> b"
  shows "slice_ids xs a b = slice_ids xs a (b - 1)"
proof -
  have "min b (int (length xs) - 1) = min (b - 1) (int (length xs) - 1)"
    using assms by linarith
  then show ?thesis by (simp add: slice_ids_def)
qed


lemma distinct_slice_ids:
  assumes "distinct (map id' xs)"
  shows "distinct (slice_ids xs a b)"
proof -
  have "inj_on (\<lambda>i. id' (xs ! nat i)) {max a 0 .. min b (int (length xs) - 1)}"
  proof (rule inj_onI)
    fix i j
    assume i: "i \<in> {max a 0 .. min b (int (length xs) - 1)}"
      and j: "j \<in> {max a 0 .. min b (int (length xs) - 1)}"
      and eq: "id' (xs ! nat i) = id' (xs ! nat j)"
    from i j have bi: "nat i < length xs" and bj: "nat j < length xs" and nn: "0 \<le> i" "0 \<le> j"
      by auto
    from eq bi bj assms have "nat i = nat j"
      using nth_eq_iff_index_eq [of "map id' xs" "nat i" "nat j"] by simp
    with nn show "i = j" by simp
  qed
  then show ?thesis
    by (simp add: slice_ids_def distinct_map)
qed


text \<open>Single steps at the two edges of a slice.\<close>

lemma remove_front:
  assumes "surface g = slice_ids (items g) a b"
  shows "surface (perform g (Remove a)) = slice_ids (items g) (a + 1) b"
proof -
  consider "a < 0" | "int (length (items g)) \<le> a" | "0 \<le> a" "a < int (length (items g))" "b < a"
    | "0 \<le> a" "a < int (length (items g))" "a \<le> b"
    by linarith
  then show ?thesis
  proof cases
    case 1
    then show ?thesis using assms by (simp add: removeElement_def slice_ids_below)
  next
    case 2
    then show ?thesis using assms by (simp add: removeElement_def slice_ids_empty)
  next
    case 3
    then show ?thesis using assms by (simp add: removeElement_def slice_ids_empty)
  next
    case 4
    then show ?thesis using assms by (simp add: removeElement_def slice_ids_Cons)
  qed
qed


lemma append_back:
  assumes "surface g = slice_ids (items g) a b" and "a \<le> b + 1"
  shows "surface (perform g (Append (b + 1))) = slice_ids (items g) a (b + 1)"
proof -
  consider "b + 1 < 0" | "int (length (items g)) \<le> b + 1"
    | "0 \<le> b + 1" "b + 1 < int (length (items g))"
    by linarith
  then show ?thesis
  proof cases
    case 1
    then show ?thesis using assms by (simp add: createElement_def slice_ids_empty)
  next
    case 2
    then show ?thesis
      using assms slice_ids_above [of "items g" "b + 1" a] by (simp add: createElement_def)
  next
    case 3
    then show ?thesis
      using assms slice_ids_snoc [of "b + 1" a "items g"] by (simp add: createElement_def)
  qed
qed


text \<open>
  The four loops, each started on a surface that is a slice: every state the loop passes
  through holds a slice, and the slice at the end is known.
\<close>

lemma visited_append:
  "set (visited g (xs @ ys)) = set (visited g xs) \<union> set (visited (foldl perform g xs) ys)"
proof (induction xs arbitrary: g)
  case Nil
  show ?case by (cases ys) auto
next
  case (Cons x xs)
  then show ?case by auto
qed

lemma visited_nonempty: "visited g ss \<noteq> []"
  by (cases ss) simp_all

lemma visited_last: "last (visited g ss) = foldl perform g ss"
  by (induction ss arbitrary: g) (simp_all add: visited_nonempty)

text \<open>The last state of a call's points is the state that the call returns.\<close>

lemma op_points_last: "last (op_points g x) = apply_op g x"
proof (cases x)
  case ShiftForwards
  then show ?thesis by (simp add: visited_last shiftForwards_def)
next
  case ShiftBackwards
  then show ?thesis by (simp add: visited_last shiftBackwards_def)
next
  case (ShiftRange t d)
  then show ?thesis
    by (simp add: Let_def visited_nonempty visited_last shiftRange_def)
qed

lemma one_element_slice:
  "surface g = slice_ids (items g) a b \<Longrightarrow> distinct (map id' (items g)) \<Longrightarrow>
   one_element_per_id g"
  by (simp add: one_element_per_id_def distinct_slice_ids)

lemma remove_ascending:
  assumes "surface g = slice_ids (items g) a b" and "distinct (map id' (items g))"
  shows "surface (foldl perform g (map Remove [a..c])) = slice_ids (items g) (max a (c + 1)) b \<and>
         (\<forall>p \<in> set (visited g (map Remove [a..c])). one_element_per_id p)"
  using assms
proof (induction "nat (c + 1 - a)" arbitrary: a g)
  case 0
  then have "c < a" and "max a (c + 1) = a" by simp_all
  with 0 show ?case by (simp add: one_element_slice)
next
  case (Suc n)
  then have le: "a \<le> c" by simp
  let ?g1 = "perform g (Remove a)"
  have s1: "surface ?g1 = slice_ids (items ?g1) (a + 1) b"
    using remove_front [OF Suc.prems(1)] by (simp del: perform.simps add: perform_fields)
  have d1: "distinct (map id' (items ?g1))"
    using Suc.prems(2) by (simp del: perform.simps add: perform_fields)
  have n: "n = nat (c + 1 - (a + 1))" using Suc.hyps(2) by simp
  have m: "max (a + 1) (c + 1) = max a (c + 1)" using le by simp
  from Suc.hyps(1) [OF n s1 d1] le Suc.prems show ?case
    unfolding m by (simp del: perform.simps add: upto_rec1 [of a c] perform_fields one_element_slice)
qed

lemma append_ascending:
  assumes "surface g = slice_ids (items g) a b" and "distinct (map id' (items g))"
    and "a \<le> b + 1"
  shows "surface (foldl perform g (map Append [b + 1..c])) = slice_ids (items g) a (max b c) \<and>
         (\<forall>p \<in> set (visited g (map Append [b + 1..c])). one_element_per_id p)"
  using assms
proof (induction "nat (c - b)" arbitrary: b g)
  case 0
  then have "c < b + 1" and "max b c = b" by simp_all
  with 0 show ?case by (simp add: one_element_slice)
next
  case (Suc n)
  then have le: "b + 1 \<le> c" by simp
  let ?g1 = "perform g (Append (b + 1))"
  have s1: "surface ?g1 = slice_ids (items ?g1) a (b + 1)"
    using append_back [OF Suc.prems(1,3)] by (simp del: perform.simps add: perform_fields)
  have d1: "distinct (map id' (items ?g1))"
    using Suc.prems(2) by (simp del: perform.simps add: perform_fields)
  have n: "n = nat (c - (b + 1))" using Suc.hyps(2) by simp
  have a1: "a \<le> b + 1 + 1" using Suc.prems(3) by simp
  have m: "max (b + 1) c = max b c" using le by simp
  from Suc.hyps(1) [OF n s1 d1 a1] le Suc.prems show ?case
    unfolding m
    by (simp del: perform.simps add: upto_rec1 [of "b + 1" c] perform_fields one_element_slice)
qed



text \<open>The three methods keep the surface in step with the range.\<close>

lemma shiftForwards_materialized:
  assumes "materialized_inv g"
  shows "materialized_inv (shiftForwards g) \<and>
         (\<forall>p \<in> set (op_points g ShiftForwards). one_element_per_id p)"
proof -
  let ?s = "start (range' g)" and ?e = "end' (range' g)" and ?d = "shiftForwards_distance g"
  let ?g0 = "shiftForwards_range g"
  from assms have inv: "distinct (map id' (items g))" "surface g = slice_ids (items g) ?s ?e"
    "1 \<le> cols g" "cols g * 5 \<le> window g" "- 1 \<le> maxEnd g" "0 \<le> ?s" "?e \<le> maxEnd g"
    "cols g * 5 \<le> ?e - ?s + 1 \<or> ?s = 0 \<and> ?e = maxEnd g"
    by (simp_all add: materialized_inv_def)
  have d: "0 \<le> ?d" "?d \<le> ?e - ?s + 1" "?e + ?d \<le> maxEnd g"
    using inv(3,5,6,7,8) by (auto simp: shiftForwards_distance_def min_def)
  have g0: "items ?g0 = items g" "surface ?g0 = surface g"
    by (simp_all add: shiftForwards_range_def Let_def calculateMargin_def)
  have s0: "surface ?g0 = slice_ids (items ?g0) ?s ?e" and d0: "distinct (map id' (items ?g0))"
    using inv(1,2) by (simp_all add: g0)
  let ?g1 = "foldl perform ?g0 (map Remove [?s .. ?s + ?d - 1])"
  have m1: "max ?s (?s + ?d - 1 + 1) = ?s + ?d" using d(1) by simp
  from remove_ascending [OF s0 d0, of "?s + ?d - 1"]
  have r1: "surface ?g1 = slice_ids (items ?g1) (?s + ?d) ?e"
    and v1: "\<forall>p \<in> set (visited ?g0 (map Remove [?s .. ?s + ?d - 1])). one_element_per_id p"
    unfolding m1 by (simp_all add: foldl_perform_fields)
  have d1: "distinct (map id' (items ?g1))" using d0 by (simp add: foldl_perform_fields)
  have le1: "?s + ?d \<le> ?e + 1" using d(2) by simp
  let ?g2 = "foldl perform ?g1 (map Append [?e + 1 .. ?e + ?d])"
  have m2: "max ?e (?e + ?d) = ?e + ?d" using d(1) by simp
  from append_ascending [OF r1 d1 le1, of "?e + ?d"]
  have r2: "surface ?g2 = slice_ids (items g) (?s + ?d) (?e + ?d)"
    and v2: "\<forall>p \<in> set (visited ?g1 (map Append [?e + 1 .. ?e + ?d])). one_element_per_id p"
    unfolding m2 by (simp_all add: foldl_perform_fields g0)
  have steps: "shiftForwards_steps g =
      map Remove [?s .. ?s + ?d - 1] @ map Append [?e + 1 .. ?e + ?d]"
    by (rule shiftForwards_steps_eq)
  have res: "shiftForwards g = ?g2"
    by (simp add: shiftForwards_def steps)
  have "materialized_inv (shiftForwards g)"
    unfolding materialized_inv_def
    using inv d r2
    by (auto simp: shiftForwards_fields shiftForwards_range' res [symmetric])
  moreover have "\<forall>p \<in> set (op_points g ShiftForwards). one_element_per_id p"
    using v1 v2 by (auto simp: steps visited_append)
  ultimately show ?thesis by blast
qed




lemma slice_ids_max: "slice_ids xs a (max (a - 1) b) = slice_ids xs a b"
proof (cases "a - 1 \<le> b")
  case True
  then show ?thesis by (simp add: max_def)
next
  case False
  then have "max (a - 1) b = a - 1" and "b < a" by simp_all
  then show ?thesis by (simp add: slice_ids_empty)
qed


lemma calculateLayout_surface: "surface (calculateLayout w h g) = surface g"
  by (simp add: calculateLayout_def Let_def)

lemma calculateLayout_window_cols:
  "cols (calculateLayout w h g) * 5 \<le> window (calculateLayout w h g)"
proof -
  let ?c = "max 1 ((int w + 25) div (150 + 25))"
  have c: "1 \<le> ?c" by simp
  have r: "0 \<le> ceil_div (int h) (200 + 25)" by (rule ceil_div_nonneg) simp_all
  have "5 * ?c \<le> (ceil_div (int h) (200 + 25) + 30) * ?c"
    using c r by (intro mult_right_mono) simp_all
  then show ?thesis by (simp add: calculateLayout_def Let_def mult.commute)
qed

lemma connectedCallback_fields:
  "items (connectedCallback w h g) = items g"
  "cols (connectedCallback w h g) = cols (calculateLayout w h g)"
  "maxEnd (connectedCallback w h g) = maxEnd (calculateLayout w h g)"
  "window (connectedCallback w h g) = window (calculateLayout w h g)"
  "range' (connectedCallback w h g) = range' (calculateLayout w h g)"
  by (simp_all add: connectedCallback_def Let_def calculateMargin_fields foldl_perform_fields
      calculateLayout_items)

lemma connectedCallback_materialized:
  assumes "distinct (map id' (items g))" and "surface g = []"
  shows "materialized_inv (connectedCallback w h g) \<and>
         (\<forall>p \<in> set (connectedCallback_points w h g). one_element_per_id p)"
proof -
  let ?g1 = "calculateLayout w h g"
  let ?e = "min (window ?g1 - 1) (maxEnd ?g1)"
  have rg: "range' ?g1 = \<lparr>start = 0, end' = ?e\<rparr>" by (rule calculateLayout_range)
  have s1: "surface ?g1 = slice_ids (items ?g1) 0 (0 - 1)"
    using assms(2) by (simp add: calculateLayout_surface slice_ids_empty)
  have d1: "distinct (map id' (items ?g1))"
    using assms(1) by (simp add: calculateLayout_items)
  from append_ascending [OF s1 d1, of ?e]
  have r: "surface (foldl perform ?g1 (map Append [0 .. ?e])) =
      slice_ids (items g) 0 (max (0 - 1) ?e)"
    and v: "\<forall>p \<in> set (visited ?g1 (map Append [0 .. ?e])). one_element_per_id p"
    by (simp_all add: calculateLayout_items)
  have r': "surface (foldl perform ?g1 (map Append [0 .. ?e])) = slice_ids (items g) 0 ?e"
    using r unfolding slice_ids_max .
  have surf: "surface (connectedCallback w h g) = slice_ids (items g) 0 ?e"
    using r' by (simp add: connectedCallback_def connectedCallback_steps_def Let_def
        calculateMargin_fields rg)
  have c: "1 \<le> cols ?g1" by (rule calculateLayout_cols)
  have wc: "cols ?g1 * 5 \<le> window ?g1" by (rule calculateLayout_window_cols)
  have m: "- 1 \<le> maxEnd ?g1" using calculateLayout_maxEnd [of g w h] by linarith
  have bounds: "cols ?g1 * 5 \<le> ?e - 0 + 1 \<or> ?e = maxEnd ?g1"
    using wc by (auto simp: min_def)
  have "materialized_inv (connectedCallback w h g)"
    unfolding materialized_inv_def
    using assms(1) surf c wc m bounds
    by (auto simp: connectedCallback_fields rg)
  moreover have "\<forall>p \<in> set (connectedCallback_points w h g). one_element_per_id p"
    using v by (simp add: connectedCallback_points_def connectedCallback_steps_def Let_def rg)
  ultimately show ?thesis by blast
qed



lemma example_ids: "map id' (map example_item xs) = xs"
  by (simp add: example_item_def comp_def)




subsection \<open>The effect of \<^verbatim>\<open>shiftForwards\<close>\<close>

text \<open>
  The two loops on the surface: the removal loop takes away, index by index, the first
  element that carries the id of the item at that index, where the index lies inside the
  collection and such an element is there; the creation loop appends one element per
  index inside the collection.
\<close>

lemma remove_loop_surface:
  "surface (foldl perform g (map Remove [a..c])) =
     foldl (\<lambda>s x. remove1 x s) (surface g) (slice_ids (items g) a c)"
proof (induction "nat (c + 1 - a)" arbitrary: a g)
  case 0
  then have "c < a" by simp
  then show ?case by (simp add: slice_ids_empty)
next
  case (Suc n)
  then have le: "a \<le> c" by simp
  let ?g1 = "perform g (Remove a)"
  have n: "n = nat (c + 1 - (a + 1))" using Suc.hyps(2) by simp
  have IH: "surface (foldl perform ?g1 (map Remove [a + 1..c])) =
      foldl (\<lambda>s x. remove1 x s) (surface ?g1) (slice_ids (items g) (a + 1) c)"
    using Suc.hyps(1) [OF n, of ?g1] by (simp del: perform.simps add: perform_fields)
  consider "a < 0" | "int (length (items g)) \<le> a" | "0 \<le> a" "a < int (length (items g))"
    by linarith
  then have "foldl (\<lambda>s x. remove1 x s) (surface ?g1) (slice_ids (items g) (a + 1) c) =
      foldl (\<lambda>s x. remove1 x s) (surface g) (slice_ids (items g) a c)"
  proof cases
    case 1
    then show ?thesis by (simp add: removeElement_def slice_ids_below)
  next
    case 2
    then show ?thesis by (simp add: removeElement_def slice_ids_empty)
  next
    case 3
    with le show ?thesis by (simp add: removeElement_def slice_ids_Cons)
  qed
  with IH le show ?case by (simp del: perform.simps add: upto_rec1 [of a c])
qed

lemma append_loop_surface:
  "surface (foldl perform g (map Append [a..c])) = surface g @ slice_ids (items g) a c"
proof (induction "nat (c + 1 - a)" arbitrary: a g)
  case 0
  then have "c < a" by simp
  then show ?case by (simp add: slice_ids_empty)
next
  case (Suc n)
  then have le: "a \<le> c" by simp
  let ?g1 = "perform g (Append a)"
  have n: "n = nat (c + 1 - (a + 1))" using Suc.hyps(2) by simp
  have IH: "surface (foldl perform ?g1 (map Append [a + 1..c])) =
      surface ?g1 @ slice_ids (items g) (a + 1) c"
    using Suc.hyps(1) [OF n, of ?g1] by (simp del: perform.simps add: perform_fields)
  consider "a < 0" | "int (length (items g)) \<le> a" | "0 \<le> a" "a < int (length (items g))"
    by linarith
  then have "surface ?g1 @ slice_ids (items g) (a + 1) c = surface g @ slice_ids (items g) a c"
  proof cases
    case 1
    then show ?thesis by (simp add: createElement_def slice_ids_below)
  next
    case 2
    then show ?thesis by (simp add: createElement_def slice_ids_empty)
  next
    case 3
    with le show ?thesis by (simp add: createElement_def slice_ids_Cons)
  qed
  with IH le show ?case by (simp del: perform.simps add: upto_rec1 [of a c])
qed

lemma shiftForwards_surface:
  "surface (shiftForwards g) =
     foldl (\<lambda>s x. remove1 x s) (surface g)
       (slice_ids (items g) (start (range' g)) (start (range' g) + shiftForwards_distance g - 1)) @
     slice_ids (items g) (end' (range' g) + 1) (end' (range' g) + shiftForwards_distance g)"
proof -
  have g0: "items (shiftForwards_range g) = items g" "surface (shiftForwards_range g) = surface g"
    by (simp_all add: shiftForwards_range_def Let_def calculateMargin_def)
  show ?thesis
    by (simp add: shiftForwards_def shiftForwards_steps_eq append_loop_surface
        remove_loop_surface foldl_perform_fields g0)
qed

lemma shiftForwards_at_end_eq:
  assumes "0 \<le> cols g" and "end' (range' g) = maxEnd g"
  shows "shiftForwards g =
     g\<lparr>wrapperTop := 25 + (max (start (range' g)) 0 div cols g) * (200 + 25)\<rparr>"
  using shiftForwards_at_end [OF assms] by (simp add: calculateMargin_def)

lemma calculateLayout_wrapperTop: "wrapperTop (calculateLayout w h g) = wrapperTop g"
  by (simp add: calculateLayout_def Let_def)

lemma shiftForwards_wrapperTop:
  "wrapperTop (shiftForwards g) =
     25 + (max (start (range' g) + shiftForwards_distance g) 0 div cols g) * (200 + 25)"
  by (simp add: shiftForwards_def foldl_perform_fields shiftForwards_range_def Let_def
      calculateMargin_def)

lemma layout_two_hundred:
  "cols (connectedCallback 700 900 (create (map example_item [0..199]))) = 4"
  "maxEnd (connectedCallback 700 900 (create (map example_item [0..199]))) = 199"
  "range' (connectedCallback 700 900 (create (map example_item [0..199]))) =
     \<lparr>start = 0, end' = 135\<rparr>"
  by (simp_all add: connectedCallback_fields calculateLayout_def create_def ceil_div_def)

lemma resized_fields:
  "cols resized = 8" "maxEnd resized = 199" "range' resized = \<lparr>start = 0, end' = 199\<rparr>"
  "wrapperTop resized = 1150"
proof -
  let ?c = "connectedCallback 700 900 (create (map example_item [0..199]))"
  let ?g = "shiftForwards ?c"
  let ?t = "foldl perform ?g (map Remove [start (range' ?g) .. end' (range' ?g)])"
  have r: "resized = calculateLayout 1400 900 ?t"
    by (simp add: resized_def Let_def)
  have "items ?t = map example_item [0..199]"
    by (simp add: foldl_perform_fields shiftForwards_fields connectedCallback_fields create_def)
  then have len: "length (items ?t) = 200" by simp
  show "cols resized = 8" "maxEnd resized = 199" "range' resized = \<lparr>start = 0, end' = 199\<rparr>"
    unfolding r by (simp_all add: calculateLayout_def Let_def len ceil_div_def)
  have "wrapperTop resized = wrapperTop ?g"
    unfolding r by (simp add: calculateLayout_wrapperTop foldl_perform_fields)
  also have "\<dots> = 1150"
    by (simp add: shiftForwards_wrapperTop shiftForwards_distance_def layout_two_hundred)
  finally show "wrapperTop resized = 1150" .
qed

lemma connectedCallback_wrapperTop:
  "wrapperTop (connectedCallback w h g) =
     25 + (max (start (range' (calculateLayout w h g))) 0 div cols (calculateLayout w h g)) * (200 + 25)"
  by (simp add: connectedCallback_def Let_def calculateMargin_def foldl_perform_fields)

text \<open>
  Claim C5, as the code has it. \<^verbatim>\<open>shiftForwards\<close> computes
  \<open>distance = min (cols * 5) (maxEnd - end)\<close> and advances both bounds by it. It removes
  exactly the indices \<open>oldStart, ..., oldStart + distance - 1\<close> (for each of them that
  lies inside the collection, the first element on the surface with the item's id, if
  any) and then creates exactly the indices \<open>oldEnd + 1, ..., oldEnd + distance\<close>, in
  ascending order, at the end of the surface. On a grid whose surface mirrors its range
  the surface afterwards is that of the new range. When \<open>end = maxEnd\<close> (and the column
  count is not negative, as in every layout) the range and the surface stay as they are
  and nothing else changes except that \<^verbatim>\<open>calculateMargin\<close> stores the wrapper's
  offset again, computed from the unchanged range: the call changes nothing exactly when
  that offset was up to date. With four columns, the range \<open>{0, 15}\<close> and
  \<open>maxEnd = 39\<close> the new range is \<open>{20, 35}\<close>, the indices \<open>0, ..., 19\<close> are removed
  and the indices \<open>16, ..., 35\<close> are created.
\<close>

theorem shiftForwards_spec:
  "let distance = min (cols g * 5) (maxEnd g - end' (range' g));
       oldStart = start (range' g);
       oldEnd = end' (range' g)
   in range' (shiftForwards g) = \<lparr>start = oldStart + distance, end' = oldEnd + distance\<rparr> \<and>
      surface (shiftForwards g) =
        foldl (\<lambda>s x. remove1 x s) (surface g)
          (slice_ids (items g) oldStart (oldStart + distance - 1)) @
        slice_ids (items g) (oldEnd + 1) (oldEnd + distance) \<and>
      (materialized_inv g \<longrightarrow>
         surface (shiftForwards g) =
           slice_ids (items g) (oldStart + distance) (oldEnd + distance)) \<and>
      (0 \<le> cols g \<and> oldEnd = maxEnd g \<longrightarrow>
         shiftForwards g = g\<lparr>wrapperTop := 25 + (max oldStart 0 div cols g) * (200 + 25)\<rparr>) \<and>
      (0 \<le> cols g \<and> oldEnd = maxEnd g \<longrightarrow>
         (shiftForwards g = g \<longleftrightarrow>
          wrapperTop g = 25 + (max oldStart 0 div cols g) * (200 + 25))) \<and>
      (cols g = 4 \<and> range' g = \<lparr>start = 0, end' = 15\<rparr> \<and> maxEnd g = 39 \<longrightarrow>
         range' (shiftForwards g) = \<lparr>start = 20, end' = 35\<rparr> \<and>
         surface (shiftForwards g) =
           foldl (\<lambda>s x. remove1 x s) (surface g) (slice_ids (items g) 0 19) @
           slice_ids (items g) 16 35)"
proof -
  have inv: "surface (shiftForwards g) =
      slice_ids (items g) (start (range' g) + shiftForwards_distance g)
        (end' (range' g) + shiftForwards_distance g)" if "materialized_inv g"
    using shiftForwards_materialized [OF that]
    by (simp add: materialized_inv_def shiftForwards_fields shiftForwards_range')
  have same: "shiftForwards g = g \<longleftrightarrow>
      wrapperTop g = 25 + (max (start (range' g)) 0 div cols g) * (200 + 25)"
    if "0 \<le> cols g" "end' (range' g) = maxEnd g"
  proof
    assume "shiftForwards g = g"
    with shiftForwards_at_end_eq [OF that]
    have "g = g\<lparr>wrapperTop := 25 + (max (start (range' g)) 0 div cols g) * (200 + 25)\<rparr>"
      by simp
    then have "wrapperTop g =
        wrapperTop (g\<lparr>wrapperTop := 25 + (max (start (range' g)) 0 div cols g) * (200 + 25)\<rparr>)"
      by simp
    then show "wrapperTop g = 25 + (max (start (range' g)) 0 div cols g) * (200 + 25)"
      by simp
  next
    assume "wrapperTop g = 25 + (max (start (range' g)) 0 div cols g) * (200 + 25)"
    with shiftForwards_at_end_eq [OF that] show "shiftForwards g = g" by simp
  qed
  show ?thesis
    unfolding Let_def
    using shiftForwards_at_end_eq [of g] shiftForwards_surface [of g] inv same
    by (auto simp: shiftForwards_range' shiftForwards_distance_def)
qed

text \<open>
  The theorem at the scenario of the specification, where the surface goes from the
  elements of \<open>0, ..., 15\<close> to those of \<open>16, ..., 35\<close>; at four items in four columns
  after \<^verbatim>\<open>connectedCallback\<close>, whose range ends at \<open>maxEnd\<close> and whose offset is up
  to date; and at forty items in one column after \<^verbatim>\<open>connectedCallback\<close>, where the
  surface goes from the range \<open>{0, 29}\<close> to the range \<open>{5, 34}\<close>.
\<close>

theorem shiftForwards_spec_witness:
  "range' (shiftForwards scenario) = \<lparr>start = 20, end' = 35\<rparr> \<and>
   surface (shiftForwards scenario) = [16..35] \<and>
   shiftForwards (connectedCallback 700 900 (create (map example_item [0..3]))) =
     connectedCallback 700 900 (create (map example_item [0..3])) \<and>
   surface (shiftForwards (connectedCallback 100 0 (create (map example_item [0..39])))) = [5..34]"
proof -
  let ?g4 = "connectedCallback 700 900 (create (map example_item [0..3]))"
  let ?g40 = "connectedCallback 100 0 (create (map example_item [0..39]))"
  have s: "foldl (\<lambda>s x. remove1 x s) (surface scenario) (slice_ids (items scenario) 0 19) @
      slice_ids (items scenario) 16 35 = [16..35]"
    by code_simp
  have "cols scenario = 4 \<and> range' scenario = \<lparr>start = 0, end' = 15\<rparr> \<and> maxEnd scenario = 39"
    by (simp add: scenario_fields)
  with shiftForwards_spec [of scenario]
  have "range' (shiftForwards scenario) = \<lparr>start = 20, end' = 35\<rparr> \<and>
      surface (shiftForwards scenario) =
        foldl (\<lambda>s x. remove1 x s) (surface scenario) (slice_ids (items scenario) 0 19) @
        slice_ids (items scenario) 16 35"
    unfolding Let_def by blast
  then have first: "range' (shiftForwards scenario) = \<lparr>start = 20, end' = 35\<rparr> \<and>
      surface (shiftForwards scenario) = [16..35]"
    unfolding s .
  have "wrapperTop ?g4 = 25"
    by (simp add: connectedCallback_wrapperTop calculateLayout_def create_def ceil_div_def)
  then have "0 \<le> cols ?g4 \<and> end' (range' ?g4) = maxEnd ?g4 \<and>
      wrapperTop ?g4 = 25 + (max (start (range' ?g4)) 0 div cols ?g4) * (200 + 25)"
    by (simp add: connectedCallback_four_items)
  with shiftForwards_spec [of ?g4] have second: "shiftForwards ?g4 = ?g4"
    unfolding Let_def by blast
  have "items (create (map example_item [0..39])) = map example_item [0..39]"
    by (simp add: create_def)
  then have "map id' (items (create (map example_item [0..39]))) = [0..39]"
    by (simp only: example_ids)
  then have "distinct (map id' (items (create (map example_item [0..39]))))"
    by (simp only: distinct_upto)
  then have inv: "materialized_inv ?g40"
    using connectedCallback_materialized [of "create (map example_item [0..39])" 100 0]
    by (simp add: create_def)
  have f40: "start (range' ?g40) + min (cols ?g40 * 5) (maxEnd ?g40 - end' (range' ?g40)) = 5"
    "end' (range' ?g40) + min (cols ?g40 * 5) (maxEnd ?g40 - end' (range' ?g40)) = 34"
    by (simp_all add: connectedCallback_fields layout_forty_items)
  have s40: "slice_ids (items ?g40) 5 34 = [5..34]"
    by code_simp
  from shiftForwards_spec [of ?g40] inv
  have "surface (shiftForwards ?g40) =
      slice_ids (items ?g40)
        (start (range' ?g40) + min (cols ?g40 * 5) (maxEnd ?g40 - end' (range' ?g40)))
        (end' (range' ?g40) + min (cols ?g40 * 5) (maxEnd ?g40 - end' (range' ?g40)))"
    unfolding Let_def by blast
  then have third: "surface (shiftForwards ?g40) = [5..34]"
    unfolding f40 s40 .
  from first second third show ?thesis by blast
qed

text \<open>
  The call at \<open>end = maxEnd\<close> is not always without effect. In the grid left by the
  resize listener the range ends at \<open>maxEnd\<close> and the wrapper's offset is still the
  1150 of the old range; \<^verbatim>\<open>shiftForwards\<close> sets it to 25.
\<close>

theorem shiftForwards_spec_counterexample:
  "end' (range' resized) = maxEnd resized \<and>
   wrapperTop resized = 1150 \<and> wrapperTop (shiftForwards resized) = 25 \<and>
   shiftForwards resized \<noteq> resized"
proof -
  have after: "wrapperTop (shiftForwards resized) = 25"
    by (simp add: shiftForwards_wrapperTop shiftForwards_distance_def resized_fields)
  have "shiftForwards resized \<noteq> resized"
  proof
    assume "shiftForwards resized = resized"
    then have "wrapperTop (shiftForwards resized) = wrapperTop resized" by simp
    with after show False by (simp add: resized_fields)
  qed
  with after show ?thesis by (simp add: resized_fields)
qed

end
